theory Spec2Isabelle
  imports Main "HOL-Library.Multiset"
begin

section \<open>The memories plugin of lifejs: data model\<close>

text \<open>
  The development follows \<^verbatim>\<open>plugins/memories/definition.ts\<close> and
  \<^verbatim>\<open>plugins/memories/memories.ts\<close>. A \<^verbatim>\<open>Message\<close> is opaque to the plugin (it is
  only copied from one array into another), so it is the type variable \<open>'m\<close>. The
  fields of the \<^verbatim>\<open>agent.resources-response\<close> payload other than \<^verbatim>\<open>requestId\<close> and
  \<^verbatim>\<open>messages\<close> are carried along by the object spread \<^verbatim>\<open>...event.data\<close>; they are the
  field \<open>rest\<close> of type \<open>'r\<close>.
\<close>

subsection \<open>definition.ts\<close>

datatype behavior = Blocking | NonBlocking

text \<open>\<^verbatim>\<open>MemoryConfig<"input">\<close>: the behavior may be left out.\<close>

record MemoryConfigInput =
  behavior_in :: "behavior option"

text \<open>\<^verbatim>\<open>MemoryConfig<"output">\<close>: the behavior is always there.\<close>

record MemoryConfig =
  behavior :: behavior

text \<open>
  \<^verbatim>\<open>memoryConfigSchema.parse\<close>: the schema is
  \<^verbatim>\<open>z.object({ behavior: z.enum(["blocking", "non-blocking"]).default("blocking") })\<close>,
  so a missing behavior parses to \<^verbatim>\<open>"blocking"\<close>.
\<close>

definition memoryConfigSchema_parse :: "MemoryConfigInput \<Rightarrow> MemoryConfig" where
  "memoryConfigSchema_parse input =
     \<lparr>behavior = (case behavior_in input of None \<Rightarrow> Blocking | Some b \<Rightarrow> b)\<rparr>"

text \<open>A JavaScript exception, as thrown by a provider's compute function.\<close>

datatype error = Error string

text \<open>
  \<^verbatim>\<open>getOutput\<close> is either an array of messages or a function of the history; the
  function may throw (or return a rejected promise), which is the \<open>Inl\<close> result.
\<close>

datatype 'm get_output = Static "'m list" | Compute "'m list \<Rightarrow> error + 'm list"

record MemoryDependencies =
  stores :: "string list"
  collections :: "string list"

record 'm MemoryDefinition =
  name :: string
  config :: MemoryConfig
  getOutput :: "'m get_output option"
  onHistoryChange :: "('m list \<Rightarrow> unit) option"
  dependencies :: MemoryDependencies

text \<open>
  A \<^verbatim>\<open>MemoryDefinitionBuilder\<close> only wraps its private definition, and every
  builder method returns a new builder around an updated copy; the builder is modelled
  by the definition it holds, and \<^verbatim>\<open>_definition()\<close> is the identity. The steps
  \<^verbatim>\<open>dependencies\<close> and \<^verbatim>\<open>onHistoryChange\<close> of the builder set fields that the plugin
  never reads; they are left out.
\<close>

definition defineMemory :: "string \<Rightarrow> 'm MemoryDefinition" where
  "defineMemory n =
     \<lparr>name = n,
      config = memoryConfigSchema_parse \<lparr>behavior_in = None\<rparr>,
      getOutput = None,
      onHistoryChange = None,
      dependencies = \<lparr>stores = [], collections = []\<rparr>\<rparr>"

definition builder_config :: "'m MemoryDefinition \<Rightarrow> MemoryConfigInput \<Rightarrow> 'm MemoryDefinition" where
  "builder_config d c = d\<lparr>config := memoryConfigSchema_parse c\<rparr>"

definition builder_getOutput :: "'m MemoryDefinition \<Rightarrow> 'm get_output \<Rightarrow> 'm MemoryDefinition" where
  "builder_getOutput d params = d\<lparr>getOutput := Some params\<rparr>"

subsection \<open>memories.ts: events and context\<close>

record ('m, 'r) resources_data =
  requestId :: string
  messages :: "'m list"
  rest :: 'r

text \<open>
  The events the plugin sees. \<open>MemoryResult n ms t\<close> is the \<^verbatim>\<open>memory-result\<close> event
  with data \<^verbatim>\<open>{ name: n, messages: ms, timestamp: t }\<close>. Timestamps are values of
  \<^verbatim>\<open>Date.now()\<close>, whole milliseconds; the schema \<^verbatim>\<open>z.number()\<close> does not exclude
  negative ones, so they are integers here.
\<close>

datatype ('m, 'r) event =
    AgentResourcesResponse "('m, 'r) resources_data"
  | BuildRequest "('m, 'r) resources_data"
  | BuildResponse "('m, 'r) resources_data"
  | MemoryResult string "'m list" int
  | OtherEvent string

record 'm cache_entry =
  hash :: string
  memories :: "'m list"

record 'm ctx =
  memoriesLastResults :: "string \<rightharpoonup> 'm list"
  memoriesLastTimestamp :: "string \<rightharpoonup> int"
  processedRequestsIds :: "string set"
  computedMemoriesCache :: "string \<rightharpoonup> 'm cache_entry"

text \<open>The context the plugin starts with: every map and the set are empty.\<close>

definition initial_context :: "'m ctx" where
  "initial_context =
     \<lparr>memoriesLastResults = Map.empty,
      memoriesLastTimestamp = Map.empty,
      processedRequestsIds = {},
      computedMemoriesCache = Map.empty\<rparr>"

subsection \<open>buildMemory\<close>

definition buildMemory :: "'m MemoryDefinition \<Rightarrow> 'm list \<Rightarrow> error + 'm list" where
  "buildMemory memory msgs =
     (case getOutput memory of
        Some (Compute f) \<Rightarrow> f msgs
      | Some (Static ms) \<Rightarrow> Inr ms
      | None \<Rightarrow> Inr [])"

subsection \<open>The interceptor\<close>

text \<open>
  What the interceptor did to the event in hand: \<open>dropped\<close> holds the reason given to
  \<^verbatim>\<open>drop\<close> when it was called, \<open>emitted_i\<close> the events passed to \<^verbatim>\<open>emit\<close>.
\<close>

record ('m, 'r) interception =
  dropped :: "string option"
  emitted_i :: "('m, 'r) event list"

definition intercept_core_resources_response ::
  "'m ctx \<Rightarrow> string \<Rightarrow> ('m, 'r) event \<Rightarrow> ('m, 'r) interception" where
  "intercept_core_resources_response c dependencyName ev =
     (case ev of
        AgentResourcesResponse d \<Rightarrow>
          if dependencyName \<noteq> ''core'' then \<lparr>dropped = None, emitted_i = []\<rparr>
          else if requestId d \<in> processedRequestsIds c then \<lparr>dropped = None, emitted_i = []\<rparr>
          else \<lparr>dropped = Some ''Will be re-emitted by memories later.'',
                emitted_i = [BuildRequest d]\<rparr>
      | _ \<Rightarrow> \<lparr>dropped = None, emitted_i = []\<rparr>)"

subsection \<open>The two effects\<close>

text \<open>
  \<^verbatim>\<open>context.memoriesLastTimestamp.get(name) ?? 0\<close>: a name without an entry counts as
  stored at timestamp 0.
\<close>

definition currentTimestamp :: "'m ctx \<Rightarrow> string \<Rightarrow> int" where
  "currentTimestamp c n = (case memoriesLastTimestamp c n of Some t0 \<Rightarrow> t0 | None \<Rightarrow> 0)"

definition store_memory_result :: "('m, 'r) event \<Rightarrow> 'm ctx \<Rightarrow> 'm ctx" where
  "store_memory_result ev c =
     (case ev of
        MemoryResult n ms t \<Rightarrow>
          if t \<ge> currentTimestamp c n
          then c\<lparr>memoriesLastResults := (memoriesLastResults c)(n \<mapsto> ms),
                 memoriesLastTimestamp := (memoriesLastTimestamp c)(n \<mapsto> t)\<rparr>
          else c
      | _ \<Rightarrow> c)"

text \<open>
  \<^verbatim>\<open>re-emit-build-response\<close> returns the new context and the events it hands to
  \<^verbatim>\<open>dependencies.core.emit\<close>.
\<close>

definition re_emit_build_response ::
  "('m, 'r) event \<Rightarrow> 'm ctx \<Rightarrow> 'm ctx \<times> ('m, 'r) event list" where
  "re_emit_build_response ev c =
     (case ev of
        BuildResponse d \<Rightarrow>
          (c\<lparr>processedRequestsIds := insert (requestId d) (processedRequestsIds c)\<rparr>,
           [AgentResourcesResponse d])
      | _ \<Rightarrow> (c, []))"

subsection \<open>The service build-non-blocking-memories\<close>

text \<open>
  What one iteration of a service loop did: \<open>invoked\<close> lists the registry indices for
  which \<^verbatim>\<open>buildMemory\<close> was called, in call order; \<open>emitted\<close> the events passed to
  \<^verbatim>\<open>emit\<close>, in emission order; \<open>logged\<close> the calls of \<^verbatim>\<open>console.error\<close>; \<open>thrown\<close>
  the exception that left the loop body, if one did.
\<close>

record ('m, 'r) run =
  invoked :: "nat list"
  emitted :: "('m, 'r) event list"
  logged :: "(string \<times> error) list"
  thrown :: "error option"

definition idle :: "('m, 'r) run" where
  "idle = \<lparr>invoked = [], emitted = [], logged = [], thrown = None\<rparr>"

text \<open>
  The promises of a fan-out settle in an order the code does not control. That order is a
  parameter of the model: a list of registry indices, the promise of the item at the head
  settling first. \<open>nonBlockingPromise\<close> is what the settling of the promise of item
  \<open>index\<close> does (\<^verbatim>\<open>.then\<close> emits, \<^verbatim>\<open>.catch\<close> logs); an index without a promise does
  nothing.
\<close>

definition nonBlockingPromise ::
  "'m MemoryDefinition list \<Rightarrow> 'm list \<Rightarrow> int \<Rightarrow> nat \<Rightarrow> ('m, 'r) run \<Rightarrow> ('m, 'r) run" where
  "nonBlockingPromise items msgs timestamp index st =
     (if index \<ge> length items then st
      else let def = items ! index in
        if behavior (config def) \<noteq> NonBlocking then st
        else case buildMemory def msgs of
               Inr ms \<Rightarrow> st\<lparr>emitted := emitted st @ [MemoryResult (name def) ms timestamp]\<rparr>
             | Inl e \<Rightarrow> st\<lparr>logged := logged st @
                           [(''Failed to update non-blocking memory '' @ [CHR 0x27] @ name def
                               @ [CHR 0x27, CHR '':''], e)]\<rparr>)"

definition build_non_blocking_memories ::
  "'m MemoryDefinition list \<Rightarrow> int \<Rightarrow> nat list \<Rightarrow> ('m, 'r) event \<Rightarrow> ('m, 'r) run" where
  "build_non_blocking_memories items now order ev =
     (case ev of
        BuildRequest d \<Rightarrow>
          fold (nonBlockingPromise items (messages d) now) order
            \<lparr>invoked = filter (\<lambda>i. behavior (config (items ! i)) = NonBlocking) [0..<length items],
             emitted = [], logged = [], thrown = None\<rparr>
      | _ \<Rightarrow> idle)"

subsection \<open>The service build-memories\<close>

text \<open>
  The state of the blocking fan-out: the map \<^verbatim>\<open>blockingResults\<close>, the
  \<^verbatim>\<open>memory-result\<close> events emitted so far, and the first rejection, which is what
  \<^verbatim>\<open>Promise.all\<close> rejects with.
\<close>

record ('m, 'r) fanout =
  blockingResults :: "nat \<rightharpoonup> 'm list"
  emitted_f :: "('m, 'r) event list"
  rejected :: "error option"

text \<open>
  The settling of the promise that \<^verbatim>\<open>config.items.map\<close> made for item \<open>index\<close>. The
  callback of an item that is not blocking returns at once. A provider that throws
  rejects its promise: nothing is stored for it and nothing is emitted.
\<close>

definition blockingPromise ::
  "'m MemoryDefinition list \<Rightarrow> 'm list \<Rightarrow> int \<Rightarrow> nat \<Rightarrow> ('m, 'r) fanout \<Rightarrow> ('m, 'r) fanout" where
  "blockingPromise items msgs timestamp index st =
     (if index \<ge> length items then st
      else let def = items ! index in
        if behavior (config def) \<noteq> Blocking then st
        else case buildMemory def msgs of
               Inr ms \<Rightarrow> st\<lparr>blockingResults := (blockingResults st)(index \<mapsto> ms),
                             emitted_f := emitted_f st @ [MemoryResult (name def) ms timestamp]\<rparr>
             | Inl e \<Rightarrow> st\<lparr>rejected := (case rejected st of None \<Rightarrow> Some e | Some e0 \<Rightarrow> Some e0)\<rparr>)"

text \<open>
  The loop \<^verbatim>\<open>for (let i = 0; i < config.items.length; i++)\<close> that builds the final
  array, run over the indices still to visit, with \<^verbatim>\<open>memoriesMessages\<close> as the
  accumulator. The test \<^verbatim>\<open>if (!item) continue\<close> never fires inside the loop's range.
\<close>

fun merge_loop ::
  "'m MemoryDefinition list \<Rightarrow> (nat \<rightharpoonup> 'm list) \<Rightarrow> 'm ctx \<Rightarrow> nat list \<Rightarrow> 'm list \<Rightarrow> 'm list" where
  "merge_loop items results c [] memoriesMessages = memoriesMessages"
| "merge_loop items results c (i # rest_is) memoriesMessages =
     (let def = items ! i in
        if behavior (config def) = Blocking
        then merge_loop items results c rest_is
               (memoriesMessages @ (case results i of Some ms \<Rightarrow> ms | None \<Rightarrow> []))
        else merge_loop items results c rest_is
               (memoriesMessages @
                 (case memoriesLastResults c (name def) of Some cached \<Rightarrow> cached | None \<Rightarrow> [])))"

text \<open>
  One iteration of the service loop, on the event \<open>ev\<close> and the context \<open>c\<close> it comes
  with. \<^verbatim>\<open>stableObjectSHA256\<close> lives in \<^verbatim>\<open>@/shared/stable-sha256\<close>, which is not part
  of the source tree at hand: the hash of \<^verbatim>\<open>{ messages }\<close> is the parameter \<open>sha\<close>.
  \<open>now\<close> is the value of \<^verbatim>\<open>Date.now()\<close> read before the fan-out, \<open>order\<close> the order in
  which the promises of the fan-out settle. When \<^verbatim>\<open>Promise.all\<close> rejects, the
  \<^verbatim>\<open>await\<close> throws and nothing catches it: the rest of the loop body does not run,
  while the promises that settle later still emit their events. The cache lookup, the
  reads of the result store in the merge loop and the cache write all go to the one
  context \<open>c\<close>: it stands for the context as the handler finds it, with no other
  handler changing it while the iteration runs.
\<close>

definition build_memories ::
  "('m list \<Rightarrow> string) \<Rightarrow> 'm MemoryDefinition list \<Rightarrow> int \<Rightarrow> nat list \<Rightarrow>
     ('m, 'r) event \<Rightarrow> 'm ctx \<Rightarrow> 'm ctx \<times> ('m, 'r) run" where
  "build_memories sha items now order ev c =
     (case ev of
        BuildRequest d \<Rightarrow>
          (let messagesHash = sha (messages d) in
           case computedMemoriesCache c messagesHash of
             Some cachedResult \<Rightarrow>
               (c, \<lparr>invoked = [],
                    emitted = [BuildResponse (d\<lparr>messages := memories cachedResult\<rparr>)],
                    logged = [], thrown = None\<rparr>)
           | None \<Rightarrow>
               (let f = fold (blockingPromise items (messages d) now) order
                          \<lparr>blockingResults = Map.empty, emitted_f = [], rejected = None\<rparr>;
                    calls = filter (\<lambda>i. behavior (config (items ! i)) = Blocking) [0..<length items]
                in case rejected f of
                     Some e \<Rightarrow>
                       (c, \<lparr>invoked = calls, emitted = emitted_f f, logged = [], thrown = Some e\<rparr>)
                   | None \<Rightarrow>
                       (let memoriesMessages =
                              merge_loop items (blockingResults f) c [0..<length items] []
                        in (c\<lparr>computedMemoriesCache := (computedMemoriesCache c)
                                 (messagesHash \<mapsto> \<lparr>hash = messagesHash, memories = memoriesMessages\<rparr>)\<rparr>,
                            \<lparr>invoked = calls,
                             emitted = emitted_f f @ [BuildResponse (d\<lparr>messages := memoriesMessages\<rparr>)],
                             logged = [], thrown = None\<rparr>))))
      | _ \<Rightarrow> (c, idle))"

subsection \<open>The handlers that write to the context\<close>

text \<open>
  Three handlers write to the context: \<^verbatim>\<open>store-memory-result\<close> (the result store),
  \<^verbatim>\<open>re-emit-build-response\<close> (\<^verbatim>\<open>processedRequestsIds\<close>) and build-memories (the
  cache). The interceptor and build-non-blocking-memories only read it. A \<open>change\<close> is
  one run of one of the three: an effect on an event, or an iteration of build-memories
  on an event with its clock reading and the order in which its promises settle.
\<close>

datatype ('m, 'r) change =
    Stored "('m, 'r) event"
  | ReEmitted "('m, 'r) event"
  | Built int "nat list" "('m, 'r) event"

fun apply_change ::
  "('m list \<Rightarrow> string) \<Rightarrow> 'm MemoryDefinition list \<Rightarrow> ('m, 'r) change \<Rightarrow> 'm ctx \<Rightarrow> 'm ctx" where
  "apply_change sha items (Stored ev) c = store_memory_result ev c"
| "apply_change sha items (ReEmitted ev) c = fst (re_emit_build_response ev c)"
| "apply_change sha items (Built now order ev) c = fst (build_memories sha items now order ev c)"

subsection \<open>From an arrival to the re-emitted response\<close>

text \<open>
  Modelled from the spec: the event runtime (interceptors, service queues, effect
  dispatch) is not in the source tree. By section 6 of the specification, an event the
  interceptor emits is put on the queue of each service, and an event a service emits is
  seen by each effect. \<open>arrival_emissions\<close> follows one arrival of an
  \<^verbatim>\<open>agent.resources-response\<close> event of the core plugin with payload \<open>d\<close> down that
  chain, and gives the events handed to \<^verbatim>\<open>dependencies.core.emit\<close> because of it, when
  the iterations of the two services for it take place. Handlers of other events may run
  in between, so the context the interceptor finds (\<open>c_arrival\<close>), the one the iteration
  of build-memories finds (\<open>c_build\<close>) and the one the effect finds (\<open>c_effect\<close>) are
  separate parameters, and so are the clock readings and settling orders of the two
  services.
\<close>

definition arrival_emissions ::
  "('m list \<Rightarrow> string) \<Rightarrow> 'm MemoryDefinition list \<Rightarrow> int \<Rightarrow> nat list \<Rightarrow> int \<Rightarrow> nat list \<Rightarrow>
     ('m, 'r) resources_data \<Rightarrow> 'm ctx \<Rightarrow> 'm ctx \<Rightarrow> 'm ctx \<Rightarrow> ('m, 'r) event list" where
  "arrival_emissions sha items now order now_nb order_nb d c_arrival c_build c_effect =
     concat (map
       (\<lambda>req. concat (map (\<lambda>ev. snd (re_emit_build_response ev c_effect))
                 (emitted (snd (build_memories sha items now order req c_build))
                  @ emitted (build_non_blocking_memories items now_nb order_nb req))))
       (emitted_i
          (intercept_core_resources_response c_arrival ''core'' (AgentResourcesResponse d))))"

section \<open>Notions used to state the properties\<close>

text \<open>
  The merged output as the specification words it (section 4.4, step 4): going through
  the registry in its declared order, a blocking provider contributes the messages it
  has just computed (nothing if it failed), a non-blocking provider the messages stored
  under its name in the result store (nothing if there is no entry).
\<close>

definition provider_segment :: "'m ctx \<Rightarrow> 'm list \<Rightarrow> 'm MemoryDefinition \<Rightarrow> 'm list" where
  "provider_segment c msgs d =
     (case behavior (config d) of
        Blocking \<Rightarrow> (case buildMemory d msgs of Inr ms \<Rightarrow> ms | Inl e \<Rightarrow> [])
      | NonBlocking \<Rightarrow> (case memoriesLastResults c (name d) of Some ms \<Rightarrow> ms | None \<Rightarrow> []))"

definition merged_in_registry_order ::
  "'m ctx \<Rightarrow> 'm list \<Rightarrow> 'm MemoryDefinition list \<Rightarrow> 'm list" where
  "merged_in_registry_order c msgs items = concat (map (provider_segment c msgs) items)"

text \<open>The item at index \<open>i\<close> is a blocking provider whose compute function throws.\<close>

definition throws :: "'m MemoryDefinition list \<Rightarrow> 'm list \<Rightarrow> nat \<Rightarrow> bool" where
  "throws items msgs i \<longleftrightarrow>
     i < length items \<and> behavior (config (items ! i)) = Blocking \<and>
     (case buildMemory (items ! i) msgs of Inl e \<Rightarrow> True | Inr ms \<Rightarrow> False)"

text \<open>What the settling of promise \<open>i\<close> of the blocking fan-out emits.\<close>

definition settled_event ::
  "'m MemoryDefinition list \<Rightarrow> 'm list \<Rightarrow> int \<Rightarrow> nat \<Rightarrow> ('m, 'r) event list" where
  "settled_event items msgs timestamp i =
     (if i < length items \<and> behavior (config (items ! i)) = Blocking
      then (case buildMemory (items ! i) msgs of
              Inr ms \<Rightarrow> [MemoryResult (name (items ! i)) ms timestamp]
            | Inl e \<Rightarrow> [])
      else [])"

text \<open>
  The two maps of the result store agree with each other and with a set \<open>S\<close> of
  events: they have the same keys, and what is stored under a name is the payload and
  the timestamp of one \<^verbatim>\<open>memory-result\<close> event of \<open>S\<close>.
\<close>

definition store_consistent :: "('m, 'r) event set \<Rightarrow> 'm ctx \<Rightarrow> bool" where
  "store_consistent S c \<longleftrightarrow>
     dom (memoriesLastResults c) = dom (memoriesLastTimestamp c) \<and>
     (\<forall>n ms t. memoriesLastResults c n = Some ms \<longrightarrow> memoriesLastTimestamp c n = Some t \<longrightarrow>
        MemoryResult n ms t \<in> S)"

text \<open>
  A family of histories over two messages \<open>a\<close> and \<open>b\<close>: one pair of messages per
  entry of a list of booleans, in the order \<open>a, b\<close> or \<open>b, a\<close>. All histories of the
  family that come from lists of one length hold the same messages.
\<close>

fun two_orders :: "'m \<Rightarrow> 'm \<Rightarrow> bool list \<Rightarrow> 'm list" where
  "two_orders a b [] = []"
| "two_orders a b (x # xs) = (if x then [a, b] else [b, a]) @ two_orders a b xs"

text \<open>
  What \<^verbatim>\<open>re-emit-build-response\<close> does with one event: \<open>forwarded\<close> is what it hands
  to \<^verbatim>\<open>dependencies.core.emit\<close>, \<open>marked\<close> the request identifiers it adds to
  \<^verbatim>\<open>processedRequestsIds\<close>.
\<close>

definition forwarded :: "('m, 'r) event \<Rightarrow> ('m, 'r) event list" where
  "forwarded ev = (case ev of BuildResponse d \<Rightarrow> [AgentResourcesResponse d] | _ \<Rightarrow> [])"

definition marked :: "('m, 'r) event \<Rightarrow> string set" where
  "marked ev = (case ev of BuildResponse d \<Rightarrow> {requestId d} | _ \<Rightarrow> {})"

subsection \<open>The examples of the specification\<close>

text \<open>
  Section 8 of the specification gives two registries. The first is
  \<^verbatim>\<open>[A (blocking), B (non-blocking), C (blocking)]\<close>; here \<open>A\<close> has a constant output,
  \<open>C\<close> computes its output, and \<open>B\<close> is made non-blocking by the \<^verbatim>\<open>config\<close> step of
  the builder. The second is \<^verbatim>\<open>[facts (blocking), recent (non-blocking)]\<close>. Messages
  are strings in the examples, and the payload has no fields beyond the two the plugin
  reads.
\<close>

definition registry_ABC :: "string MemoryDefinition list" where
  "registry_ABC =
     [builder_getOutput (defineMemory ''A'') (Static [''a'']),
      builder_config (builder_getOutput (defineMemory ''B'') (Compute (\<lambda>h. Inr [''b2''])))
        \<lparr>behavior_in = Some NonBlocking\<rparr>,
      builder_getOutput (defineMemory ''C'') (Compute (\<lambda>h. Inr [''c'']))]"

definition registry_facts_recent :: "string MemoryDefinition list" where
  "registry_facts_recent =
     [builder_getOutput (defineMemory ''facts'') (Compute (\<lambda>h. Inr [''F1''])),
      builder_config (builder_getOutput (defineMemory ''recent'') (Compute (\<lambda>h. Inr [''R1''])))
        \<lparr>behavior_in = Some NonBlocking\<rparr>]"

text \<open>A registry whose only provider is blocking and throws.\<close>

definition registry_throwing :: "string MemoryDefinition list" where
  "registry_throwing =
     [builder_getOutput (defineMemory ''facts'') (Compute (\<lambda>h. Inl (Error ''boom'')))]"

definition request_U1 :: "(string, unit) resources_data" where
  "request_U1 = \<lparr>requestId = ''r1'', messages = [''U1''], rest = ()\<rparr>"

text \<open>
  A stand-in for the hash in the examples: the messages written one after the other,
  each closed by a semicolon.
\<close>

definition example_sha :: "string list \<Rightarrow> string" where
  "example_sha h = concat (map (\<lambda>m. m @ '';'') h)"

text \<open>A second request with the same history, under another identifier.\<close>

definition request_U1_again :: "(string, unit) resources_data" where
  "request_U1_again = \<lparr>requestId = ''r2'', messages = [''U1''], rest = ()\<rparr>"

text \<open>
  The context after the first request of the end-to-end example: the cache holds the
  merged output \<^verbatim>\<open>["F1"]\<close> under the hash of the history \<^verbatim>\<open>[U1]\<close>.
\<close>

definition context_after_round_one :: "string ctx" where
  "context_after_round_one =
     initial_context\<lparr>computedMemoriesCache :=
       [''U1;'' \<mapsto> \<lparr>hash = ''U1;'', memories = [''F1'']\<rparr>]\<rparr>"

text \<open>A context in which an earlier result of \<open>facts\<close> is stored.\<close>

definition context_with_old_facts :: "string ctx" where
  "context_with_old_facts =
     store_memory_result (MemoryResult ''facts'' [''old''] 3 :: (string, unit) event) initial_context"

text \<open>
  The context after the first answer of the end-to-end example has been handled by the
  two effects: the result of \<open>facts\<close> is stored and the request is marked as processed.
\<close>

definition context_after_first_response :: "string ctx" where
  "context_after_first_response =
     fst (re_emit_build_response
            (BuildResponse (request_U1\<lparr>messages := [''F1'']\<rparr>) :: (string, unit) event)
            (store_memory_result (MemoryResult ''facts'' [''F1''] 7 :: (string, unit) event)
               context_after_round_one))"

section \<open>The result store\<close>

lemma store_cases:
  "store_memory_result (MemoryResult n ms t) c =
     (if currentTimestamp c n \<le> t
      then c\<lparr>memoriesLastResults := (memoriesLastResults c)(n \<mapsto> ms),
             memoriesLastTimestamp := (memoriesLastTimestamp c)(n \<mapsto> t)\<rparr>
      else c)"
  by (simp add: store_memory_result_def)

text \<open>
  Claim C6. The effect \<^verbatim>\<open>store-memory-result\<close> changes the context only when the
  incoming timestamp is at least the stored one (0 when the name has no entry), and then
  the name holds the incoming payload and timestamp; an event older than what is stored
  leaves the context as it is. So for two events for one name with \<open>t1 < t2\<close>, where
  \<open>t2\<close> is itself not older than what is stored, both orders of arrival end in the same
  context, which holds the payload of \<open>t2\<close>.
\<close>

theorem store_memory_result_last_write_wins:
  fixes c :: "'m ctx"
  shows
    "(store_memory_result (MemoryResult n ms t :: ('m, 'r) event) c \<noteq> c
        \<longrightarrow> currentTimestamp c n \<le> t)
   \<and> (currentTimestamp c n \<le> t \<longrightarrow>
        memoriesLastResults (store_memory_result (MemoryResult n ms t :: ('m, 'r) event) c) n = Some ms
      \<and> memoriesLastTimestamp (store_memory_result (MemoryResult n ms t :: ('m, 'r) event) c) n = Some t)
   \<and> (t < currentTimestamp c n \<longrightarrow>
        store_memory_result (MemoryResult n ms t :: ('m, 'r) event) c = c)
   \<and> (t1 < t2 \<and> currentTimestamp c n \<le> t2 \<longrightarrow>
        store_memory_result (MemoryResult n p2 t2 :: ('m, 'r) event)
          (store_memory_result (MemoryResult n p1 t1 :: ('m, 'r) event) c)
          = c\<lparr>memoriesLastResults := (memoriesLastResults c)(n \<mapsto> p2),
               memoriesLastTimestamp := (memoriesLastTimestamp c)(n \<mapsto> t2)\<rparr>
      \<and> store_memory_result (MemoryResult n p1 t1 :: ('m, 'r) event)
          (store_memory_result (MemoryResult n p2 t2 :: ('m, 'r) event) c)
          = c\<lparr>memoriesLastResults := (memoriesLastResults c)(n \<mapsto> p2),
               memoriesLastTimestamp := (memoriesLastTimestamp c)(n \<mapsto> t2)\<rparr>)"
  by (auto simp: store_cases currentTimestamp_def split: option.splits)

theorem store_memory_result_last_write_wins_witness:
  "store_memory_result (MemoryResult ''X'' [1::nat] 1 :: (nat, unit) event) initial_context \<noteq> initial_context
   \<and> currentTimestamp (initial_context :: nat ctx) ''X'' \<le> 1
   \<and> (3::int) < currentTimestamp
         (store_memory_result (MemoryResult ''X'' [9::nat] 10 :: (nat, unit) event) initial_context) ''X''
   \<and> store_memory_result (MemoryResult ''X'' [3::nat] 3 :: (nat, unit) event)
         (store_memory_result (MemoryResult ''X'' [9::nat] 10 :: (nat, unit) event) initial_context)
       = store_memory_result (MemoryResult ''X'' [9::nat] 10 :: (nat, unit) event) initial_context
   \<and> (1::int) < 2 \<and> currentTimestamp (initial_context :: nat ctx) ''X'' \<le> 2
   \<and> memoriesLastResults
         (store_memory_result (MemoryResult ''X'' [2::nat] 2 :: (nat, unit) event)
           (store_memory_result (MemoryResult ''X'' [1::nat] 1 :: (nat, unit) event) initial_context)) ''X''
       = Some [2]
   \<and> memoriesLastResults
         (store_memory_result (MemoryResult ''X'' [1::nat] 1 :: (nat, unit) event)
           (store_memory_result (MemoryResult ''X'' [2::nat] 2 :: (nat, unit) event) initial_context)) ''X''
       = Some [2]"
proof -
  have stored: "currentTimestamp
      (store_memory_result (MemoryResult ''X'' [9::nat] 10 :: (nat, unit) event) initial_context) ''X'' = 10"
    by (simp add: store_cases currentTimestamp_def initial_context_def)
  have fresh: "currentTimestamp (initial_context :: nat ctx) ''X'' = 0"
    by (simp add: currentTimestamp_def initial_context_def)
  have changed: "store_memory_result (MemoryResult ''X'' [1::nat] 1 :: (nat, unit) event) initial_context \<noteq> initial_context"
  proof
    assume "store_memory_result (MemoryResult ''X'' [1::nat] 1 :: (nat, unit) event) initial_context = initial_context"
    then have "memoriesLastResults (store_memory_result (MemoryResult ''X'' [1::nat] 1 :: (nat, unit) event) initial_context) ''X''
       = memoriesLastResults (initial_context :: nat ctx) ''X''" by simp
    then show False by (simp add: store_cases fresh) (simp add: initial_context_def)
  qed
  show ?thesis
    using changed stored fresh
      store_memory_result_last_write_wins
        [where 'r = unit and n = "''X''" and ms = "[1::nat]" and t = 1 and c = "initial_context :: nat ctx"
           and ?t1.0 = 1 and ?t2.0 = 2 and ?p1.0 = "[1::nat]" and ?p2.0 = "[2::nat]"]
      store_memory_result_last_write_wins
        [where 'r = unit and n = "''X''" and ms = "[3::nat]" and t = 3
           and c = "store_memory_result (MemoryResult ''X'' [9::nat] 10 :: (nat, unit) event) initial_context"
           and ?t1.0 = 1 and ?t2.0 = 2 and ?p1.0 = "[1::nat]" and ?p2.0 = "[2::nat]"]
    by simp
qed

lemma store_consistent_step:
  assumes "store_consistent S c"
  shows "store_consistent (insert ev S) (store_memory_result ev c)"
proof (cases ev)
  case (MemoryResult n ms t)
  show ?thesis
  proof (cases "currentTimestamp c n \<le> t")
    case True
    with assms MemoryResult show ?thesis
      by (auto simp: store_consistent_def store_cases)
  next
    case False
    with assms MemoryResult show ?thesis
      by (auto simp: store_consistent_def store_cases)
  qed
qed (use assms in \<open>auto simp: store_consistent_def store_memory_result_def\<close>)

lemma store_consistent_fold:
  "store_consistent S c \<Longrightarrow> store_consistent (S \<union> set evs) (fold store_memory_result evs c)"
proof (induction evs arbitrary: S c)
  case Nil
  then show ?case by simp
next
  case (Cons ev evs)
  from Cons.prems have "store_consistent (insert ev S) (store_memory_result ev c)"
    by (rule store_consistent_step)
  from Cons.IH [OF this] show ?case by simp
qed

lemma store_consistent_initial: "store_consistent {} initial_context"
  by (simp add: store_consistent_def initial_context_def)

text \<open>
  Claim C10. After any sequence of events has gone through \<^verbatim>\<open>store-memory-result\<close>,
  starting from the initial context, \<^verbatim>\<open>memoriesLastResults\<close> and
  \<^verbatim>\<open>memoriesLastTimestamp\<close> have the same keys, and the messages and the timestamp
  stored under a name are those of one \<^verbatim>\<open>memory-result\<close> event of the sequence.
\<close>

theorem result_store_maps_consistent:
  fixes evs :: "('m, 'r) event list"
  shows
    "dom (memoriesLastResults (fold store_memory_result evs (initial_context :: 'm ctx)))
       = dom (memoriesLastTimestamp (fold store_memory_result evs (initial_context :: 'm ctx)))
     \<and> (\<forall>n ms t.
          memoriesLastResults (fold store_memory_result evs (initial_context :: 'm ctx)) n = Some ms
          \<longrightarrow> memoriesLastTimestamp (fold store_memory_result evs (initial_context :: 'm ctx)) n = Some t
          \<longrightarrow> MemoryResult n ms t \<in> set evs)"
  using store_consistent_fold [OF store_consistent_initial, of evs]
  by (simp add: store_consistent_def)

theorem result_store_maps_consistent_witness:
  "memoriesLastResults (fold store_memory_result
       [MemoryResult ''X'' [1::nat] 5, MemoryResult ''X'' [2] 3, MemoryResult ''Y'' [] 0 :: (nat, unit) event]
       initial_context) ''X'' = Some [1]
   \<and> memoriesLastTimestamp (fold store_memory_result
       [MemoryResult ''X'' [1::nat] 5, MemoryResult ''X'' [2] 3, MemoryResult ''Y'' [] 0 :: (nat, unit) event]
       initial_context) ''X'' = Some 5
   \<and> MemoryResult ''X'' [1::nat] 5
       \<in> set [MemoryResult ''X'' [1::nat] 5, MemoryResult ''X'' [2] 3, MemoryResult ''Y'' [] 0 :: (nat, unit) event]
   \<and> dom (memoriesLastTimestamp (fold store_memory_result
       [MemoryResult ''X'' [1::nat] 5, MemoryResult ''X'' [2] 3, MemoryResult ''Y'' [] 0 :: (nat, unit) event]
       initial_context)) = {''X'', ''Y''}"
  using result_store_maps_consistent
    [of "[MemoryResult ''X'' [1::nat] 5, MemoryResult ''X'' [2] 3, MemoryResult ''Y'' [] 0 :: (nat, unit) event]"]
  by (auto simp: store_cases currentTimestamp_def initial_context_def)

section \<open>The service build-memories\<close>

lemma fold_blockingPromise_emitted:
  "emitted_f (fold (blockingPromise items msgs ts) order st) =
     emitted_f st @ concat (map (settled_event items msgs ts) order)"
  by (induction order arbitrary: st)
     (auto simp: blockingPromise_def settled_event_def Let_def split: sum.splits)

lemma fold_blockingPromise_rejected:
  "rejected (fold (blockingPromise items msgs ts) order st) = None \<longleftrightarrow>
     rejected st = None \<and> (\<forall>i \<in> set order. \<not> throws items msgs i)"
  by (induction order arbitrary: st)
     (auto simp: blockingPromise_def throws_def Let_def split: sum.splits option.splits)

lemma fold_blockingPromise_results:
  "blockingResults (fold (blockingPromise items msgs ts) order st) i =
     (if i \<in> set order \<and> i < length items \<and> behavior (config (items ! i)) = Blocking
         \<and> \<not> throws items msgs i
      then (case buildMemory (items ! i) msgs of Inr ms \<Rightarrow> Some ms | Inl e \<Rightarrow> None)
      else blockingResults st i)"
  by (induction order arbitrary: st)
     (auto simp: blockingPromise_def throws_def Let_def split: sum.splits)

lemma merge_loop_concat:
  "merge_loop items results c idxs acc =
     acc @ concat (map (\<lambda>i. if behavior (config (items ! i)) = Blocking
                             then (case results i of Some ms \<Rightarrow> ms | None \<Rightarrow> [])
                             else (case memoriesLastResults c (name (items ! i)) of
                                     Some cached \<Rightarrow> cached | None \<Rightarrow> [])) idxs)"
  by (induction idxs arbitrary: acc) (simp_all add: Let_def)

lemma merge_loop_registry_order:
  assumes "\<forall>i < length items. i \<in> set order"
  shows "merge_loop items
           (blockingResults (fold (blockingPromise items msgs ts) order
              \<lparr>blockingResults = Map.empty, emitted_f = [], rejected = None\<rparr>))
           c [0..<length items] [] = merged_in_registry_order c msgs items"
proof -
  have "map (\<lambda>i. if behavior (config (items ! i)) = Blocking
                 then (case blockingResults (fold (blockingPromise items msgs ts) order
                         \<lparr>blockingResults = Map.empty, emitted_f = [], rejected = None\<rparr>) i of
                         Some ms \<Rightarrow> ms | None \<Rightarrow> [])
                 else (case memoriesLastResults c (name (items ! i)) of
                         Some cached \<Rightarrow> cached | None \<Rightarrow> [])) [0..<length items]
        = map (\<lambda>i. provider_segment c msgs (items ! i)) [0..<length items]"
    using assms
    by (auto simp: fold_blockingPromise_results provider_segment_def throws_def
             split: sum.splits behavior.splits)
  also have "\<dots> = map (provider_segment c msgs) items"
    by (rule nth_equalityI) simp_all
  finally have eq: "map (\<lambda>i. if behavior (config (items ! i)) = Blocking
                 then (case blockingResults (fold (blockingPromise items msgs ts) order
                         \<lparr>blockingResults = Map.empty, emitted_f = [], rejected = None\<rparr>) i of
                         Some ms \<Rightarrow> ms | None \<Rightarrow> [])
                 else (case memoriesLastResults c (name (items ! i)) of
                         Some cached \<Rightarrow> cached | None \<Rightarrow> [])) [0..<length items]
        = map (provider_segment c msgs) items" .
  show ?thesis
    by (simp only: merge_loop_concat merged_in_registry_order_def eq append_Nil)
qed

lemma build_memories_hit:
  assumes "computedMemoriesCache c (sha (messages d)) = Some cachedResult"
  shows "build_memories sha items now order (BuildRequest d) c =
           (c, \<lparr>invoked = [],
                emitted = [BuildResponse (d\<lparr>messages := memories cachedResult\<rparr>)],
                logged = [], thrown = None\<rparr>)"
  using assms by (simp add: build_memories_def)

lemma build_memories_miss:
  assumes miss: "computedMemoriesCache c (sha (messages d)) = None"
      and settle: "\<forall>i < length items. i \<in> set order"
      and ok: "\<forall>i \<in> set order. \<not> throws items (messages d) i"
  shows "build_memories sha items now order (BuildRequest d) c =
           (c\<lparr>computedMemoriesCache := (computedMemoriesCache c)
                 (sha (messages d) \<mapsto>
                    \<lparr>hash = sha (messages d),
                     memories = merged_in_registry_order c (messages d) items\<rparr>)\<rparr>,
            \<lparr>invoked = filter (\<lambda>i. behavior (config (items ! i)) = Blocking) [0..<length items],
             emitted = concat (map (settled_event items (messages d) now) order)
                       @ [BuildResponse
                            (d\<lparr>messages := merged_in_registry_order c (messages d) items\<rparr>)],
             logged = [], thrown = None\<rparr>)"
proof -
  have rej: "rejected (fold (blockingPromise items (messages d) now) order
               (\<lparr>blockingResults = Map.empty, emitted_f = [], rejected = None\<rparr> :: ('a, 'b) fanout)) = None"
    using ok by (simp add: fold_blockingPromise_rejected)
  show ?thesis
    using miss
    by (simp add: build_memories_def Let_def rej merge_loop_registry_order [OF settle]
                  fold_blockingPromise_emitted)
qed

lemma build_memories_throw:
  assumes miss: "computedMemoriesCache c (sha (messages d)) = None"
      and bad: "i \<in> set order" "throws items (messages d) i"
  shows "fst (build_memories sha items now order (BuildRequest d) c) = c"
    and "thrown (snd (build_memories sha items now order (BuildRequest d) c)) \<noteq> None"
    and "emitted (snd (build_memories sha items now order (BuildRequest d) c))
           = concat (map (settled_event items (messages d) now) order)"
    and "logged (snd (build_memories sha items now order (BuildRequest d) c)) = []"
proof -
  have "rejected (fold (blockingPromise items (messages d) now) order
               (\<lparr>blockingResults = Map.empty, emitted_f = [], rejected = None\<rparr> :: ('a, 'b) fanout)) \<noteq> None"
    using bad by (auto simp: fold_blockingPromise_rejected)
  then obtain e where rej: "rejected (fold (blockingPromise items (messages d) now) order
               (\<lparr>blockingResults = Map.empty, emitted_f = [], rejected = None\<rparr> :: ('a, 'b) fanout)) = Some e"
    by blast
  show "fst (build_memories sha items now order (BuildRequest d) c) = c"
    using miss by (simp add: build_memories_def Let_def rej)
  show "thrown (snd (build_memories sha items now order (BuildRequest d) c)) \<noteq> None"
    using miss by (simp add: build_memories_def Let_def rej)
  show "emitted (snd (build_memories sha items now order (BuildRequest d) c))
           = concat (map (settled_event items (messages d) now) order)"
    using miss by (simp add: build_memories_def Let_def rej fold_blockingPromise_emitted)
  show "logged (snd (build_memories sha items now order (BuildRequest d) c)) = []"
    using miss by (simp add: build_memories_def Let_def rej)
qed

lemma settled_event_shape:
  "(settled_event items msgs ts i :: ('m, 'r) event list) = [] \<or>
   (\<exists>n ms. (settled_event items msgs ts i :: ('m, 'r) event list) = [MemoryResult n ms ts])"
  unfolding settled_event_def
  by (cases "buildMemory (items ! i) msgs") auto

lemma settled_event_is_memory_result:
  fixes ev :: "('m, 'r) event"
  assumes "ev \<in> set (settled_event items msgs ts i)"
  shows "\<exists>n ms. ev = MemoryResult n ms ts"
  using assms settled_event_shape [where 'r = 'r, of items msgs ts i] by auto

text \<open>
  Claim C1. On a build-request whose history is not in the cache, and when every promise
  of the fan-out has settled, the only build-response the service emits carries the
  concatenation, in registry order, of the fresh output of each blocking provider and of
  what the result store holds for each non-blocking provider (nothing where there is
  none). The right-hand side does not mention the order in which the promises settle.
  When no blocking provider throws, the response is emitted, after the
  \<^verbatim>\<open>memory-result\<close> events of the providers in the order they settled.
\<close>

theorem build_memories_merges_in_registry_order:
  fixes d :: "('m, 'r) resources_data"
  assumes miss: "computedMemoriesCache c (sha (messages d)) = None"
      and settle: "\<forall>i < length items. i \<in> set order"
  shows "(\<forall>d'. BuildResponse d' \<in> set (emitted (snd (build_memories sha items now order (BuildRequest d) c)))
            \<longrightarrow> d' = d\<lparr>messages := merged_in_registry_order c (messages d) items\<rparr>)
       \<and> ((\<forall>i < length items. \<not> throws items (messages d) i) \<longrightarrow>
            emitted (snd (build_memories sha items now order (BuildRequest d) c))
              = concat (map (settled_event items (messages d) now) order)
                @ [BuildResponse (d\<lparr>messages := merged_in_registry_order c (messages d) items\<rparr>)])"
proof (cases "\<forall>i \<in> set order. \<not> throws items (messages d) i")
  case True
  have no_resp: "BuildResponse d' \<notin> set (concat (map (settled_event items (messages d) now) order))"
    for d' :: "('m, 'r) resources_data"
    using settled_event_is_memory_result [where 'r = 'r] by fastforce
  show ?thesis
    using no_resp by (simp add: build_memories_miss [where sha = sha and d = d, OF miss settle True])
next
  case False
  then obtain i where bad: "i \<in> set order" "throws items (messages d) i"
    by blast
  have no_resp: "BuildResponse d' \<notin> set (concat (map (settled_event items (messages d) now) order))"
    for d' :: "('m, 'r) resources_data"
    using settled_event_is_memory_result [where 'r = 'r] by fastforce
  have "i < length items" using bad(2) by (simp add: throws_def)
  with bad(2) have "\<not> (\<forall>i < length items. \<not> throws items (messages d) i)" by blast
  then show ?thesis
    using no_resp by (simp add: build_memories_throw(3) [where sha = sha and d = d, OF miss bad])
qed

section \<open>The ordering example\<close>

lemmas example_defs =
  registry_ABC_def registry_facts_recent_def registry_throwing_def request_U1_def example_sha_def
  defineMemory_def builder_config_def builder_getOutput_def memoryConfigSchema_parse_def
  buildMemory_def initial_context_def

lemma all_less_3: "(\<forall>i < 3. P i) \<longleftrightarrow> P (0::nat) \<and> P 1 \<and> P 2"
proof -
  have "{..<3::nat} = {0, 1, 2}" by auto
  then show ?thesis by (metis lessThan_iff insert_iff empty_iff)
qed

lemma all_settle_3: "\<forall>i < length registry_ABC. i \<in> set [2, 1, 0::nat]"
  by (auto simp: registry_ABC_def)

lemma ABC_miss:
  "computedMemoriesCache
     (store_memory_result (MemoryResult ''B'' [''b''] 5 :: (string, unit) event) initial_context)
     (example_sha (messages request_U1)) = None"
  by (simp add: store_cases initial_context_def)

lemma ABC_no_throw: "\<forall>i < length registry_ABC. \<not> throws registry_ABC (messages request_U1) i"
proof -
  have len: "length registry_ABC = 3" by (simp add: registry_ABC_def)
  show ?thesis unfolding len all_less_3 by (simp add: throws_def example_defs)
qed

lemma ABC_merged:
  "merged_in_registry_order
     (store_memory_result (MemoryResult ''B'' [''b''] 5 :: (string, unit) event) initial_context)
     (messages request_U1) registry_ABC = [''a'', ''b'', ''c'']"
  by (simp add: merged_in_registry_order_def provider_segment_def store_cases currentTimestamp_def
        example_defs)

lemma ABC_settled:
  "concat (map (settled_event registry_ABC (messages request_U1) 7) [2, 1, 0])
     = [MemoryResult ''C'' [''c''] 7, MemoryResult ''A'' [''a''] 7 :: (string, unit) event]"
  by (simp add: settled_event_def example_defs)

theorem build_memories_merges_in_registry_order_witness:
  "computedMemoriesCache
     (store_memory_result (MemoryResult ''B'' [''b''] 5 :: (string, unit) event) initial_context)
     (example_sha (messages request_U1)) = None
   \<and> {..<length registry_ABC} \<subseteq> set [2, 1, 0::nat]
   \<and> {i. i < length registry_ABC \<and> throws registry_ABC (messages request_U1) i} = {}
   \<and> emitted (snd (build_memories example_sha registry_ABC 7 [2, 1, 0] (BuildRequest request_U1)
        (store_memory_result (MemoryResult ''B'' [''b''] 5 :: (string, unit) event) initial_context)))
       = [MemoryResult ''C'' [''c''] 7, MemoryResult ''A'' [''a''] 7,
          BuildResponse (request_U1\<lparr>messages := [''a'', ''b'', ''c'']\<rparr>)]
   \<and> BuildResponse (request_U1\<lparr>messages := [''a'', ''b'', ''c'']\<rparr>)
       \<in> set (emitted (snd (build_memories example_sha registry_ABC 7 [2, 1, 0] (BuildRequest request_U1)
        (store_memory_result (MemoryResult ''B'' [''b''] 5 :: (string, unit) event) initial_context))))"
proof -
  have "emitted (snd (build_memories example_sha registry_ABC 7 [2, 1, 0] (BuildRequest request_U1)
        (store_memory_result (MemoryResult ''B'' [''b''] 5 :: (string, unit) event) initial_context)))
       = concat (map (settled_event registry_ABC (messages request_U1) 7) [2, 1, 0])
         @ [BuildResponse (request_U1\<lparr>messages := merged_in_registry_order
              (store_memory_result (MemoryResult ''B'' [''b''] 5 :: (string, unit) event) initial_context)
              (messages request_U1) registry_ABC\<rparr>)]"
    using build_memories_merges_in_registry_order
          [where sha = example_sha and d = request_U1 and items = registry_ABC
             and order = "[2, 1, 0]" and now = 7, OF ABC_miss all_settle_3]
        ABC_no_throw
    by blast
  then have "emitted (snd (build_memories example_sha registry_ABC 7 [2, 1, 0] (BuildRequest request_U1)
        (store_memory_result (MemoryResult ''B'' [''b''] 5 :: (string, unit) event) initial_context)))
       = [MemoryResult ''C'' [''c''] 7, MemoryResult ''A'' [''a''] 7,
          BuildResponse (request_U1\<lparr>messages := [''a'', ''b'', ''c'']\<rparr>)]"
    by (simp only: ABC_merged ABC_settled append.simps)
  moreover have "{..<length registry_ABC} \<subseteq> set [2, 1, 0::nat]"
    using all_settle_3 by blast
  moreover have "{i. i < length registry_ABC \<and> throws registry_ABC (messages request_U1) i} = {}"
    using ABC_no_throw by blast
  ultimately show ?thesis
    using ABC_miss by simp
qed


section \<open>A blocking provider that throws\<close>

text \<open>
  Claim C2 says that a build-response is emitted, with an empty segment for the provider,
  when a blocking provider throws, and that the exception is logged. The code does
  neither: on the registry whose only provider is blocking and throws, the exception
  leaves the loop body, nothing is emitted, nothing is logged and the cache is not
  written.
\<close>

theorem blocking_provider_throw_leaves_no_response:
  "build_memories example_sha registry_throwing 7 [0] (BuildRequest request_U1) initial_context
     = (initial_context,
        \<lparr>invoked = [0], emitted = [], logged = [], thrown = Some (Error ''boom'')\<rparr>)"
  by (simp add: build_memories_def blockingPromise_def example_defs)

lemma build_memories_throw_no_response:
  fixes d :: "('m, 'r) resources_data"
  assumes miss: "computedMemoriesCache c (sha (messages d)) = None"
      and bad: "i \<in> set order" "throws items (messages d) i"
  shows "BuildResponse d' \<notin> set (emitted (snd (build_memories sha items now order (BuildRequest d) c)))"
  using settled_event_is_memory_result [where 'r = 'r]
  by (fastforce simp: build_memories_throw(3) [where sha = sha and d = d, OF miss bad])

section \<open>The build cache\<close>

text \<open>
  Claim C4. On a build-request whose history has its hash in the cache, the service emits
  one build-response with the cached messages, calls \<^verbatim>\<open>buildMemory\<close> for no provider,
  and leaves the context as it is, whatever the registry is. (The other service,
  build-non-blocking-memories, does not look at the cache.)
\<close>

theorem cache_hit_skips_providers:
  assumes "computedMemoriesCache c (sha (messages d)) = Some cachedResult"
  shows "build_memories sha items now order (BuildRequest d) c =
           (c, \<lparr>invoked = [],
                emitted = [BuildResponse (d\<lparr>messages := memories cachedResult\<rparr>)],
                logged = [], thrown = None\<rparr>)"
  using assms by (rule build_memories_hit)

lemma store_memory_result_cache:
  "computedMemoriesCache (store_memory_result ev c) = computedMemoriesCache c"
  by (cases ev) (simp_all add: store_memory_result_def)

lemma fold_store_memory_result_cache:
  "computedMemoriesCache (fold store_memory_result evs c) = computedMemoriesCache c"
  by (induction evs arbitrary: c) (simp_all add: store_memory_result_cache)

lemma build_memories_completed:
  fixes d :: "('m, 'r) resources_data"
  assumes "build_memories sha items now order (BuildRequest d) c = (c1, r1)"
      and "thrown r1 = None"
  shows "\<exists>e. computedMemoriesCache c1 (sha (messages d)) = Some e \<and>
             last (emitted r1) = BuildResponse (d\<lparr>messages := memories e\<rparr>)"
proof (cases "computedMemoriesCache c (sha (messages d))")
  case (Some e)
  with assms show ?thesis
    by (auto simp: build_memories_hit [where sha = sha and d = d, OF Some])
next
  case None
  show ?thesis
  proof (cases "rejected (fold (blockingPromise items (messages d) now) order
               (\<lparr>blockingResults = Map.empty, emitted_f = [], rejected = None\<rparr> :: ('m, 'r) fanout))")
    case (Some e)
    with None assms show ?thesis
      by (auto simp: build_memories_def Let_def)
  next
    case rej: None
    with None assms show ?thesis
      by (auto simp: build_memories_def Let_def)
  qed
qed

text \<open>
  Claim C5. After a request has been answered, no sequence of events going through
  \<^verbatim>\<open>store-memory-result\<close> changes the cache, and a later request whose history has the
  same hash is answered with the messages of the first answer, whatever the result store
  holds by then.
\<close>

theorem cache_entry_survives_store_updates:
  fixes d d2 :: "('m, 'r) resources_data" and evs :: "('m, 'r) event list"
  assumes first: "build_memories sha items now order (BuildRequest d) c = (c1, r1)"
      and completed: "thrown r1 = None"
      and same: "sha (messages d2) = sha (messages d)"
  shows "computedMemoriesCache (fold store_memory_result evs c1) = computedMemoriesCache c1
       \<and> (\<exists>e. computedMemoriesCache c1 (sha (messages d)) = Some e \<and>
             last (emitted r1) = BuildResponse (d\<lparr>messages := memories e\<rparr>) \<and>
             build_memories sha items2 now2 order2 (BuildRequest d2) (fold store_memory_result evs c1)
               = (fold store_memory_result evs c1,
                  \<lparr>invoked = [], emitted = [BuildResponse (d2\<lparr>messages := memories e\<rparr>)],
                   logged = [], thrown = None\<rparr>))"
proof -
  from build_memories_completed [OF first completed]
  obtain e where entry: "computedMemoriesCache c1 (sha (messages d)) = Some e"
    and m: "last (emitted r1) = BuildResponse (d\<lparr>messages := memories e\<rparr>)"
    by blast
  have hit: "computedMemoriesCache (fold store_memory_result evs c1) (sha (messages d2)) = Some e"
    using entry same by (simp add: fold_store_memory_result_cache)
  have "build_memories sha items2 now2 order2 (BuildRequest d2) (fold store_memory_result evs c1)
          = (fold store_memory_result evs c1,
             \<lparr>invoked = [], emitted = [BuildResponse (d2\<lparr>messages := memories e\<rparr>)],
              logged = [], thrown = None\<rparr>)"
    using build_memories_hit [where sha = sha and d = d2, OF hit] by simp
  with m entry show ?thesis
    by (simp add: fold_store_memory_result_cache)
qed


lemma facts_recent_round_one:
  "build_memories example_sha registry_facts_recent 7 [1, 0] (BuildRequest request_U1) initial_context
     = (context_after_round_one,
        \<lparr>invoked = [0],
         emitted = [MemoryResult ''facts'' [''F1''] 7, BuildResponse (request_U1\<lparr>messages := [''F1'']\<rparr>)],
         logged = [], thrown = None\<rparr>)"
  by (simp add: build_memories_def blockingPromise_def context_after_round_one_def example_defs Let_def)

lemma facts_recent_non_blocking:
  "build_non_blocking_memories registry_facts_recent 8 [1, 0] (BuildRequest request_U1)
     = \<lparr>invoked = [1], emitted = [MemoryResult ''recent'' [''R1''] 8], logged = [], thrown = None\<rparr>"
  by (simp add: build_non_blocking_memories_def nonBlockingPromise_def example_defs)

theorem cache_hit_skips_providers_witness:
  "computedMemoriesCache context_after_round_one (example_sha (messages request_U1_again))
     = Some \<lparr>hash = ''U1;'', memories = [''F1'']\<rparr>
   \<and> build_memories example_sha registry_facts_recent 9 [0, 1] (BuildRequest request_U1_again)
         context_after_round_one
       = (context_after_round_one,
          \<lparr>invoked = [], emitted = [BuildResponse (request_U1_again\<lparr>messages := [''F1'']\<rparr>)],
           logged = [], thrown = None\<rparr>)"
proof -
  have hit: "computedMemoriesCache context_after_round_one (example_sha (messages request_U1_again))
     = Some \<lparr>hash = ''U1;'', memories = [''F1'']\<rparr>"
    by (simp add: context_after_round_one_def request_U1_again_def example_sha_def initial_context_def)
  show ?thesis
    using hit cache_hit_skips_providers
      [where sha = example_sha and d = request_U1_again and c = context_after_round_one
         and items = registry_facts_recent and now = 9 and order = "[0, 1]", OF hit]
    by simp
qed

theorem cache_entry_survives_store_updates_witness:
  "build_memories example_sha registry_facts_recent 7 [1, 0] (BuildRequest request_U1) initial_context
     = (context_after_round_one,
        \<lparr>invoked = [0],
         emitted = [MemoryResult ''facts'' [''F1''] 7, BuildResponse (request_U1\<lparr>messages := [''F1'']\<rparr>)],
         logged = [], thrown = None\<rparr>)
   \<and> example_sha (messages request_U1_again) = example_sha (messages request_U1)
   \<and> memoriesLastResults
         (fold store_memory_result [MemoryResult ''recent'' [''R1''] 8 :: (string, unit) event]
            context_after_round_one) ''recent'' = Some [''R1'']
   \<and> emitted (snd (build_memories example_sha registry_facts_recent 9 [0, 1]
         (BuildRequest request_U1_again)
         (fold store_memory_result [MemoryResult ''recent'' [''R1''] 8 :: (string, unit) event]
            context_after_round_one)))
       = [BuildResponse (request_U1_again\<lparr>messages := [''F1'']\<rparr>)]"
proof -
  have same: "example_sha (messages request_U1_again) = example_sha (messages request_U1)"
    by (simp add: request_U1_again_def request_U1_def)
  have stored: "memoriesLastResults
         (fold store_memory_result [MemoryResult ''recent'' [''R1''] 8 :: (string, unit) event]
            context_after_round_one) ''recent'' = Some [''R1'']"
    by (simp add: store_cases currentTimestamp_def context_after_round_one_def initial_context_def)
  have entry: "computedMemoriesCache context_after_round_one (example_sha (messages request_U1))
     = Some \<lparr>hash = ''U1;'', memories = [''F1'']\<rparr>"
    by (simp add: context_after_round_one_def request_U1_def example_sha_def initial_context_def)
  from cache_entry_survives_store_updates
         [where evs = "[MemoryResult ''recent'' [''R1''] 8]" and ?items2.0 = registry_facts_recent
            and ?now2.0 = 9 and ?order2.0 = "[0, 1]",
          OF facts_recent_round_one _ same]
  have "emitted (snd (build_memories example_sha registry_facts_recent 9 [0, 1]
         (BuildRequest request_U1_again)
         (fold store_memory_result [MemoryResult ''recent'' [''R1''] 8 :: (string, unit) event]
            context_after_round_one)))
       = [BuildResponse (request_U1_again\<lparr>messages := [''F1'']\<rparr>)]"
    by (auto simp: entry)
  with same stored facts_recent_round_one show ?thesis by simp
qed

section \<open>The timestamp of the blocking fan-out\<close>

lemma build_memories_miss_emitted:
  fixes d :: "('m, 'r) resources_data"
  assumes miss: "computedMemoriesCache c (sha (messages d)) = None"
  shows "\<exists>tail. emitted (snd (build_memories sha items now order (BuildRequest d) c))
                 = concat (map (settled_event items (messages d) now) order) @ tail
               \<and> (\<forall>n ms t. MemoryResult n ms t \<notin> set tail)"
proof (cases "rejected (fold (blockingPromise items (messages d) now) order
               (\<lparr>blockingResults = Map.empty, emitted_f = [], rejected = None\<rparr> :: ('m, 'r) fanout))")
  case None
  with miss show ?thesis
    by (simp add: build_memories_def Let_def fold_blockingPromise_emitted)
next
  case (Some e)
  with miss show ?thesis
    by (simp add: build_memories_def Let_def fold_blockingPromise_emitted)
qed

lemma settled_event_timestamp:
  fixes ev :: "('m, 'r) event"
  assumes "MemoryResult n ms t \<in> set (concat (map (settled_event items msgs ts) order) :: ('m, 'r) event list)"
  shows "t = ts"
proof -
  from assms obtain i where "(MemoryResult n ms t :: ('m, 'r) event) \<in> set (settled_event items msgs ts i)"
    by auto
  from settled_event_is_memory_result [OF this] show ?thesis by simp
qed

lemma settled_event_emitted:
  assumes "i \<in> set order" "i < length items" "behavior (config (items ! i)) = Blocking"
      and "buildMemory (items ! i) msgs = Inr ms"
  shows "(MemoryResult (name (items ! i)) ms ts :: ('m, 'r) event)
           \<in> set (concat (map (settled_event items msgs ts) order))"
proof -
  have "(settled_event items msgs ts i :: ('m, 'r) event list) = [MemoryResult (name (items ! i)) ms ts]"
    using assms by (simp add: settled_event_def)
  with assms(1) show ?thesis by force
qed

text \<open>
  Claim C8. Every \<^verbatim>\<open>memory-result\<close> event that the service build-memories emits for a
  build-request carries the timestamp read once before the fan-out; and when the history
  is not cached, each blocking provider whose promise settles with a result has its
  event, with that timestamp, whenever it settles.
\<close>

theorem blocking_results_share_one_timestamp:
  fixes d :: "('m, 'r) resources_data"
  shows "(\<forall>n ms t. MemoryResult n ms t
             \<in> set (emitted (snd (build_memories sha items now order (BuildRequest d) c)))
           \<longrightarrow> t = now)
       \<and> (computedMemoriesCache c (sha (messages d)) = None \<longrightarrow>
            (\<forall>i \<in> set order. \<forall>ms. i < length items \<and> behavior (config (items ! i)) = Blocking
                \<and> buildMemory (items ! i) (messages d) = Inr ms
              \<longrightarrow> MemoryResult (name (items ! i)) ms now
                    \<in> set (emitted (snd (build_memories sha items now order (BuildRequest d) c)))))"
proof (cases "computedMemoriesCache c (sha (messages d))")
  case (Some e)
  then show ?thesis
    by (simp add: build_memories_hit [where sha = sha and d = d, OF Some])
next
  case None
  from build_memories_miss_emitted [where sha = sha and d = d, OF None, of items now order]
  obtain tail where em: "emitted (snd (build_memories sha items now order (BuildRequest d) c))
                 = concat (map (settled_event items (messages d) now) order) @ tail"
    and tail: "\<forall>n ms t. MemoryResult n ms t \<notin> set tail"
    by blast
  have one: "t = now"
    if "MemoryResult n ms t \<in> set (emitted (snd (build_memories sha items now order (BuildRequest d) c)))"
    for n ms t
  proof -
    from that tail have "MemoryResult n ms t
        \<in> set (concat (map (settled_event items (messages d) now) order) :: ('m, 'r) event list)"
      unfolding em by auto
    then show ?thesis by (rule settled_event_timestamp)
  qed
  have all: "MemoryResult (name (items ! i)) ms now
                    \<in> set (emitted (snd (build_memories sha items now order (BuildRequest d) c)))"
    if "i \<in> set order" "i < length items" "behavior (config (items ! i)) = Blocking"
       "buildMemory (items ! i) (messages d) = Inr ms" for i ms
    using settled_event_emitted [OF that, where 'r = 'r] unfolding em by simp
  from one all show ?thesis by blast
qed

theorem blocking_results_share_one_timestamp_witness:
  "MemoryResult ''C'' [''c''] 7 \<in> set (emitted (snd (build_memories example_sha registry_ABC 7 [2, 1, 0]
        (BuildRequest request_U1)
        (store_memory_result (MemoryResult ''B'' [''b''] 5 :: (string, unit) event) initial_context))))
   \<and> computedMemoriesCache
        (store_memory_result (MemoryResult ''B'' [''b''] 5 :: (string, unit) event) initial_context)
        (example_sha (messages request_U1)) = None
   \<and> 2 \<in> set [2, 1, 0::nat] \<and> 2 < length registry_ABC
   \<and> behavior (config (registry_ABC ! 2)) = Blocking
   \<and> buildMemory (registry_ABC ! 2) (messages request_U1) = Inr [''c'']
   \<and> name (registry_ABC ! 2) = ''C''"
proof -
  have facts: "2 < length registry_ABC" "behavior (config (registry_ABC ! 2)) = Blocking"
    "buildMemory (registry_ABC ! 2) (messages request_U1) = Inr [''c'']"
    "name (registry_ABC ! 2) = ''C''"
    by (simp_all add: example_defs)
  have "MemoryResult (name (registry_ABC ! 2)) [''c''] 7
          \<in> set (emitted (snd (build_memories example_sha registry_ABC 7 [2, 1, 0]
        (BuildRequest request_U1)
        (store_memory_result (MemoryResult ''B'' [''b''] 5 :: (string, unit) event) initial_context))))"
    using blocking_results_share_one_timestamp
      [where sha = example_sha and d = request_U1 and items = registry_ABC and now = 7
         and order = "[2, 1, 0]"
         and c = "store_memory_result (MemoryResult ''B'' [''b''] 5 :: (string, unit) event) initial_context"]
      ABC_miss facts(1-3)
    by (metis list.set_intros(1))
  with facts ABC_miss show ?thesis by simp
qed


section \<open>The default behavior\<close>

lemma merged_in_registry_order_at:
  assumes "i < length items"
  shows "merged_in_registry_order c msgs items =
           merged_in_registry_order c msgs (take i items)
           @ provider_segment c msgs (items ! i)
           @ merged_in_registry_order c msgs (drop (Suc i) items)"
proof -
  have "items = take i items @ items ! i # drop (Suc i) items"
    using assms by (rule id_take_nth_drop)
  then have "map (provider_segment c msgs) items =
       map (provider_segment c msgs) (take i items)
       @ provider_segment c msgs (items ! i) # map (provider_segment c msgs) (drop (Suc i) items)"
    by (metis map_append list.simps(9))
  then show ?thesis
    by (simp only: merged_in_registry_order_def concat_append concat.simps)
qed

text \<open>
  Claim C9. \<^verbatim>\<open>defineMemory\<close> gives a blocking descriptor, and the \<^verbatim>\<open>config\<close> step of
  the builder parses an input without a behavior to blocking. A registry item with such a
  configuration is computed in the blocking fan-out, its event is emitted before the
  response, and its segment of the merged output is its fresh output, whatever the
  result store holds under its name.
\<close>

theorem omitted_behavior_is_blocking:
  fixes d :: "('m, 'r) resources_data" and items :: "'m MemoryDefinition list"
    and m0 :: "'m MemoryDefinition"
  shows "behavior (config (defineMemory n :: 'm MemoryDefinition)) = Blocking
       \<and> behavior (config (builder_config m0 \<lparr>behavior_in = None\<rparr>)) = Blocking
       \<and> (i < length items
            \<and> config (items ! i) = memoryConfigSchema_parse \<lparr>behavior_in = None\<rparr>
            \<and> buildMemory (items ! i) (messages d) = Inr out
            \<and> computedMemoriesCache c (sha (messages d)) = None
            \<and> (\<forall>j < length items. j \<in> set order)
            \<and> (\<forall>j < length items. \<not> throws items (messages d) j)
          \<longrightarrow> i \<in> set (invoked (snd (build_memories sha items now order (BuildRequest d) c)))
            \<and> emitted (snd (build_memories sha items now order (BuildRequest d) c))
                = concat (map (settled_event items (messages d) now) order)
                  @ [BuildResponse (d\<lparr>messages :=
                       merged_in_registry_order c (messages d) (take i items)
                       @ out
                       @ merged_in_registry_order c (messages d) (drop (Suc i) items)\<rparr>)]
            \<and> MemoryResult (name (items ! i)) out now
                \<in> set (concat (map (settled_event items (messages d) now) order) :: ('m, 'r) event list))"
proof -
  have a: "behavior (config (defineMemory n :: 'm MemoryDefinition)) = Blocking"
    by (simp add: defineMemory_def memoryConfigSchema_parse_def)
  have b: "behavior (config (builder_config m0 \<lparr>behavior_in = None\<rparr>)) = Blocking"
    by (simp add: builder_config_def memoryConfigSchema_parse_def)
  have c: "i \<in> set (invoked (snd (build_memories sha items now order (BuildRequest d) c)))
            \<and> emitted (snd (build_memories sha items now order (BuildRequest d) c))
                = concat (map (settled_event items (messages d) now) order)
                  @ [BuildResponse (d\<lparr>messages :=
                       merged_in_registry_order c (messages d) (take i items)
                       @ out
                       @ merged_in_registry_order c (messages d) (drop (Suc i) items)\<rparr>)]
            \<and> MemoryResult (name (items ! i)) out now
                \<in> set (concat (map (settled_event items (messages d) now) order) :: ('m, 'r) event list)"
    if i: "i < length items"
      and cfg: "config (items ! i) = memoryConfigSchema_parse \<lparr>behavior_in = None\<rparr>"
      and out: "buildMemory (items ! i) (messages d) = Inr out"
      and miss: "computedMemoriesCache c (sha (messages d)) = None"
      and settle: "\<forall>j < length items. j \<in> set order"
      and ok: "\<forall>j < length items. \<not> throws items (messages d) j"
  proof -
    have blocking: "behavior (config (items ! i)) = Blocking"
      by (simp add: cfg memoryConfigSchema_parse_def)
    have ok': "\<forall>j \<in> set order. \<not> throws items (messages d) j"
      using ok by (auto simp: throws_def)
    have seg: "provider_segment c (messages d) (items ! i) = out"
      by (simp add: provider_segment_def blocking out)
    have run: "build_memories sha items now order (BuildRequest d) c =
           (c\<lparr>computedMemoriesCache := (computedMemoriesCache c)
                 (sha (messages d) \<mapsto>
                    \<lparr>hash = sha (messages d),
                     memories = merged_in_registry_order c (messages d) items\<rparr>)\<rparr>,
            \<lparr>invoked = filter (\<lambda>i. behavior (config (items ! i)) = Blocking) [0..<length items],
             emitted = concat (map (settled_event items (messages d) now) order)
                       @ [BuildResponse
                            (d\<lparr>messages := merged_in_registry_order c (messages d) items\<rparr>)],
             logged = [], thrown = None\<rparr>)"
      by (rule build_memories_miss [where sha = sha and d = d, OF miss settle ok'])
    have inv: "i \<in> set (invoked (snd (build_memories sha items now order (BuildRequest d) c)))"
      using i blocking by (simp add: run)
    have em: "emitted (snd (build_memories sha items now order (BuildRequest d) c))
                = concat (map (settled_event items (messages d) now) order)
                  @ [BuildResponse (d\<lparr>messages :=
                       merged_in_registry_order c (messages d) (take i items)
                       @ out
                       @ merged_in_registry_order c (messages d) (drop (Suc i) items)\<rparr>)]"
      using merged_in_registry_order_at [OF i, of c "messages d"] by (simp add: run seg)
    have "i \<in> set order" using settle i by blast
    from settled_event_emitted [OF this i blocking out, where 'r = 'r]
    show ?thesis using inv em by blast
  qed
  from a b c show ?thesis by blast
qed


lemma all_less_2: "(\<forall>i < 2. P i) \<longleftrightarrow> P (0::nat) \<and> P 1"
proof -
  have "{..<2::nat} = {0, 1}" by auto
  then show ?thesis by (metis lessThan_iff insert_iff empty_iff)
qed

lemma facts_recent_length: "length registry_facts_recent = 2"
  by (simp add: registry_facts_recent_def)

lemma facts_recent_settle: "\<forall>j < length registry_facts_recent. j \<in> set [1, 0::nat]"
  unfolding facts_recent_length all_less_2 by simp

lemma facts_recent_no_throw:
  "\<forall>j < length registry_facts_recent. \<not> throws registry_facts_recent (messages request_U1) j"
  unfolding facts_recent_length all_less_2 by (simp add: throws_def example_defs)

theorem omitted_behavior_is_blocking_witness:
  "memoriesLastResults context_with_old_facts ''facts'' = Some [''old'']
   \<and> 0 < length registry_facts_recent
   \<and> config (registry_facts_recent ! 0) = memoryConfigSchema_parse \<lparr>behavior_in = None\<rparr>
   \<and> buildMemory (registry_facts_recent ! 0) (messages request_U1) = Inr [''F1'']
   \<and> computedMemoriesCache context_with_old_facts (example_sha (messages request_U1)) = None
   \<and> {..<length registry_facts_recent} \<subseteq> set [1, 0::nat]
   \<and> {j. j < length registry_facts_recent
            \<and> throws registry_facts_recent (messages request_U1) j} = {}
   \<and> emitted (snd (build_memories example_sha registry_facts_recent 7 [1, 0]
         (BuildRequest request_U1) context_with_old_facts))
       = [MemoryResult ''facts'' [''F1''] 7, BuildResponse (request_U1\<lparr>messages := [''F1'']\<rparr>)]"
proof -
  have old: "memoriesLastResults context_with_old_facts ''facts'' = Some [''old'']"
    by (simp add: context_with_old_facts_def store_cases currentTimestamp_def initial_context_def)
  have i: "0 < length registry_facts_recent"
    by (simp add: registry_facts_recent_def)
  have cfg: "config (registry_facts_recent ! 0) = memoryConfigSchema_parse \<lparr>behavior_in = None\<rparr>"
    by (simp add: example_defs)
  have out: "buildMemory (registry_facts_recent ! 0) (messages request_U1) = Inr [''F1'']"
    by (simp add: example_defs)
  have miss: "computedMemoriesCache context_with_old_facts (example_sha (messages request_U1)) = None"
    by (simp add: context_with_old_facts_def store_cases initial_context_def)
  have before: "merged_in_registry_order context_with_old_facts (messages request_U1)
                  (take 0 registry_facts_recent) = []"
    by (simp add: merged_in_registry_order_def)
  have after: "merged_in_registry_order context_with_old_facts (messages request_U1)
                  (drop (Suc 0) registry_facts_recent) = []"
    by (simp add: merged_in_registry_order_def provider_segment_def context_with_old_facts_def
          store_cases currentTimestamp_def example_defs)
  have settled: "concat (map (settled_event registry_facts_recent (messages request_U1) 7) [1, 0])
     = [MemoryResult ''facts'' [''F1''] 7 :: (string, unit) event]"
    by (simp add: settled_event_def example_defs)
  have "emitted (snd (build_memories example_sha registry_facts_recent 7 [1, 0]
         (BuildRequest request_U1) context_with_old_facts))
       = concat (map (settled_event registry_facts_recent (messages request_U1) 7) [1, 0])
         @ [BuildResponse (request_U1\<lparr>messages :=
              merged_in_registry_order context_with_old_facts (messages request_U1)
                (take 0 registry_facts_recent)
              @ [''F1'']
              @ merged_in_registry_order context_with_old_facts (messages request_U1)
                (drop (Suc 0) registry_facts_recent)\<rparr>)]"
    using omitted_behavior_is_blocking
      [where sha = example_sha and d = request_U1 and items = registry_facts_recent and i = 0
         and out = "[''F1'']" and c = context_with_old_facts and order = "[1, 0]" and now = 7]
      i cfg out miss facts_recent_settle facts_recent_no_throw
    by blast
  then have "emitted (snd (build_memories example_sha registry_facts_recent 7 [1, 0]
         (BuildRequest request_U1) context_with_old_facts))
       = [MemoryResult ''facts'' [''F1''] 7, BuildResponse (request_U1\<lparr>messages := [''F1'']\<rparr>)]"
    by (simp only: before after settled append.simps)
  moreover have "{..<length registry_facts_recent} \<subseteq> set [1, 0::nat]"
    using facts_recent_settle by blast
  moreover have "{j. j < length registry_facts_recent
            \<and> throws registry_facts_recent (messages request_U1) j} = {}"
    using facts_recent_no_throw by blast
  ultimately show ?thesis
    using old i cfg out miss by blast
qed


section \<open>Requests already processed\<close>

lemma store_memory_result_processed:
  "processedRequestsIds (store_memory_result ev c) = processedRequestsIds c"
  by (cases ev) (simp_all add: store_memory_result_def)

lemma re_emit_build_response_eq:
  "re_emit_build_response ev c =
     (c\<lparr>processedRequestsIds := processedRequestsIds c \<union> marked ev\<rparr>, forwarded ev)"
  by (cases ev) (simp_all add: re_emit_build_response_def marked_def forwarded_def)

lemma forwarded_settled:
  "concat (map forwarded (concat (map (settled_event items msgs ts) order) :: ('m, 'r) event list)) = []"
proof (induction order)
  case Nil
  show ?case by simp
next
  case (Cons i order)
  have "concat (map forwarded (settled_event items msgs ts i :: ('m, 'r) event list)) = []"
    using settled_event_shape [where 'r = 'r, of items msgs ts i]
    by (auto simp: forwarded_def)
  with Cons show ?case by simp
qed

lemma fold_nonBlockingPromise_forwarded:
  "concat (map forwarded (emitted (fold (nonBlockingPromise items msgs ts) order st)))
     = concat (map forwarded (emitted st))"
  by (induction order arbitrary: st)
     (auto simp: nonBlockingPromise_def Let_def forwarded_def split: sum.splits)

lemma build_non_blocking_memories_forwarded:
  "concat (map forwarded (emitted (build_non_blocking_memories items now order ev))) = []"
  by (cases ev)
     (simp_all add: build_non_blocking_memories_def fold_nonBlockingPromise_forwarded idle_def)

lemma build_memories_processed:
  "processedRequestsIds (fst (build_memories sha items now order ev c)) = processedRequestsIds c"
  by (cases ev) (auto simp: build_memories_def Let_def split: option.splits)

lemma build_memories_forwarded:
  fixes d :: "('m, 'r) resources_data"
  assumes ok: "\<forall>i \<in> set order. \<not> throws items (messages d) i"
  shows "\<exists>m. emitted (snd (build_memories sha items now order (BuildRequest d) c))
               = concat (map (settled_event items (messages d) now)
                   (if computedMemoriesCache c (sha (messages d)) = None then order else []))
                 @ [BuildResponse (d\<lparr>messages := m\<rparr>)]"
proof (cases "computedMemoriesCache c (sha (messages d))")
  case (Some e)
  have "emitted (snd (build_memories sha items now order (BuildRequest d) c))
          = [] @ [BuildResponse (d\<lparr>messages := memories e\<rparr>)]"
    by (simp add: build_memories_hit [where sha = sha and d = d, OF Some])
  with Some show ?thesis by auto
next
  case None
  have rej: "rejected (fold (blockingPromise items (messages d) now) order
               (\<lparr>blockingResults = Map.empty, emitted_f = [], rejected = None\<rparr> :: ('m, 'r) fanout)) = None"
    using ok by (simp add: fold_blockingPromise_rejected)
  show ?thesis
    using None by (auto simp: build_memories_def Let_def rej fold_blockingPromise_emitted)
qed

lemma intercept_processed:
  assumes "requestId d \<in> processedRequestsIds c"
  shows "intercept_core_resources_response c ''core'' (AgentResourcesResponse d)
           = \<lparr>dropped = None, emitted_i = []\<rparr>"
  using assms by (simp add: intercept_core_resources_response_def)

lemma intercept_fresh:
  assumes "requestId d \<notin> processedRequestsIds c"
  shows "intercept_core_resources_response c ''core'' (AgentResourcesResponse d)
           = \<lparr>dropped = Some ''Will be re-emitted by memories later.'',
              emitted_i = [BuildRequest d]\<rparr>"
  using assms by (simp add: intercept_core_resources_response_def)

lemma re_emit_snd: "snd (re_emit_build_response ev c) = forwarded ev"
  by (simp add: re_emit_build_response_eq)

lemma arrival_emissions_processed:
  assumes "requestId d \<in> processedRequestsIds c"
  shows "arrival_emissions sha items now order now_nb order_nb d c cb ce = []"
  by (simp add: arrival_emissions_def intercept_processed [OF assms])

lemma arrival_emissions_fresh:
  assumes "requestId d \<notin> processedRequestsIds c"
  shows "arrival_emissions sha items now order now_nb order_nb d c cb ce
           = concat (map forwarded (emitted (snd (build_memories sha items now order (BuildRequest d) cb))))"
  by (simp add: arrival_emissions_def intercept_fresh [OF assms] re_emit_snd
        build_non_blocking_memories_forwarded)

lemma build_memories_emitted_shape:
  fixes d :: "('m, 'r) resources_data"
  shows "\<exists>tail. emitted (snd (build_memories sha items now order (BuildRequest d) c))
                 = concat (map (settled_event items (messages d) now)
                     (if computedMemoriesCache c (sha (messages d)) = None then order else []))
                   @ tail
               \<and> (tail = [] \<or> (\<exists>m. tail = [BuildResponse (d\<lparr>messages := m\<rparr>)]))"
proof (cases "computedMemoriesCache c (sha (messages d))")
  case (Some e)
  have "emitted (snd (build_memories sha items now order (BuildRequest d) c))
          = [] @ [BuildResponse (d\<lparr>messages := memories e\<rparr>)]"
    by (simp add: build_memories_hit [where sha = sha and d = d, OF Some])
  with Some show ?thesis by auto
next
  case None
  show ?thesis
  proof (cases "rejected (fold (blockingPromise items (messages d) now) order
               (\<lparr>blockingResults = Map.empty, emitted_f = [], rejected = None\<rparr> :: ('m, 'r) fanout))")
    case rej: None
    with None show ?thesis
      by (auto simp: build_memories_def Let_def fold_blockingPromise_emitted)
  next
    case (Some e)
    with None show ?thesis
      by (auto simp: build_memories_def Let_def fold_blockingPromise_emitted)
  qed
qed

lemma build_memories_at_most_one:
  fixes d :: "('m, 'r) resources_data"
  shows "concat (map forwarded (emitted (snd (build_memories sha items now order (BuildRequest d) c)))) = []
       \<or> (\<exists>m. concat (map forwarded (emitted (snd (build_memories sha items now order (BuildRequest d) c))))
              = [AgentResourcesResponse (d\<lparr>messages := m\<rparr>)])"
proof -
  from build_memories_emitted_shape [of sha items now order d c]
  obtain tail where em: "emitted (snd (build_memories sha items now order (BuildRequest d) c))
                 = concat (map (settled_event items (messages d) now)
                     (if computedMemoriesCache c (sha (messages d)) = None then order else []))
                   @ tail"
    and tail: "tail = [] \<or> (\<exists>m. tail = [BuildResponse (d\<lparr>messages := m\<rparr>)])"
    by blast
  have "concat (map forwarded (emitted (snd (build_memories sha items now order (BuildRequest d) c))))
          = concat (map forwarded tail)"
    unfolding em by (simp add: forwarded_settled)
  with tail show ?thesis
    by (auto simp: forwarded_def)
qed

lemma build_memories_exactly_one:
  fixes d :: "('m, 'r) resources_data"
  assumes "computedMemoriesCache c (sha (messages d)) \<noteq> None
             \<or> (\<forall>i < length items. \<not> throws items (messages d) i)"
  shows "\<exists>m. emitted (snd (build_memories sha items now order (BuildRequest d) c))
               = concat (map (settled_event items (messages d) now)
                   (if computedMemoriesCache c (sha (messages d)) = None then order else []))
                 @ [BuildResponse (d\<lparr>messages := m\<rparr>)]"
proof (cases "computedMemoriesCache c (sha (messages d))")
  case (Some e)
  have "emitted (snd (build_memories sha items now order (BuildRequest d) c))
          = [] @ [BuildResponse (d\<lparr>messages := memories e\<rparr>)]"
    by (simp add: build_memories_hit [where sha = sha and d = d, OF Some])
  with Some show ?thesis by auto
next
  case None
  with assms have "\<forall>i < length items. \<not> throws items (messages d) i" by simp
  then have "\<forall>i \<in> set order. \<not> throws items (messages d) i"
    by (auto simp: throws_def)
  from build_memories_forwarded [OF this, of sha now c] show ?thesis .
qed

lemma apply_change_processed:
  "processedRequestsIds (apply_change sha items ch c)
     = processedRequestsIds c \<union> (case ch of ReEmitted ev \<Rightarrow> marked ev | _ \<Rightarrow> {})"
  by (cases ch)
     (simp_all add: store_memory_result_processed re_emit_build_response_eq build_memories_processed)

lemma fold_apply_change_processed:
  "processedRequestsIds c \<subseteq> processedRequestsIds (fold (apply_change sha items) changes c)"
proof (induction changes arbitrary: c)
  case Nil
  show ?case by simp
next
  case (Cons ch changes)
  have "processedRequestsIds c \<subseteq> processedRequestsIds (apply_change sha items ch c)"
    by (simp add: apply_change_processed)
  also have "\<dots> \<subseteq> processedRequestsIds (fold (apply_change sha items) changes (apply_change sha items ch c))"
    by (rule Cons.IH)
  finally show ?case by simp
qed


lemma build_memories_response_id:
  fixes d resp :: "('m, 'r) resources_data"
  assumes "BuildResponse resp \<in> set (emitted (snd (build_memories sha items now order (BuildRequest d) c)))"
  shows "requestId resp = requestId d"
proof -
  from build_memories_emitted_shape [of sha items now order d c]
  obtain tail where em: "emitted (snd (build_memories sha items now order (BuildRequest d) c))
                 = concat (map (settled_event items (messages d) now)
                     (if computedMemoriesCache c (sha (messages d)) = None then order else []))
                   @ tail"
    and tail: "tail = [] \<or> (\<exists>m. tail = [BuildResponse (d\<lparr>messages := m\<rparr>)])"
    by blast
  have "BuildResponse resp \<notin> set (concat (map (settled_event items (messages d) now) xs))"
    for xs
    using settled_event_is_memory_result [where 'r = 'r] by fastforce
  with assms have "BuildResponse resp \<in> set tail"
    unfolding em by auto
  with tail show ?thesis by auto
qed

lemma build_memories_response_forwarded:
  fixes d resp :: "('m, 'r) resources_data"
  assumes "BuildResponse resp \<in> set (emitted (snd (build_memories sha items now order (BuildRequest d) c)))"
  shows "concat (map forwarded (emitted (snd (build_memories sha items now order (BuildRequest d) c))))
           = [AgentResourcesResponse resp]"
proof -
  from build_memories_emitted_shape [of sha items now order d c]
  obtain tail where em: "emitted (snd (build_memories sha items now order (BuildRequest d) c))
                 = concat (map (settled_event items (messages d) now)
                     (if computedMemoriesCache c (sha (messages d)) = None then order else []))
                   @ tail"
    and tail: "tail = [] \<or> (\<exists>m. tail = [BuildResponse (d\<lparr>messages := m\<rparr>)])"
    by blast
  have "BuildResponse resp \<notin> set (concat (map (settled_event items (messages d) now) xs))"
    for xs
    using settled_event_is_memory_result [where 'r = 'r] by fastforce
  with assms have "BuildResponse resp \<in> set tail"
    unfolding em by auto
  with tail have "tail = [BuildResponse resp]" by auto
  then show ?thesis
    unfolding em by (simp add: forwarded_settled) (simp add: forwarded_def)
qed

text \<open>
  Claim C3, as amended. The interceptor leaves alone every event that is not an
  \<^verbatim>\<open>agent.resources-response\<close> of the core plugin. An arrival of such an event whose
  request identifier is in \<^verbatim>\<open>processedRequestsIds\<close> is ignored: the interceptor does
  not drop it and emits no build-request, so nothing is re-emitted because of it. An
  arrival whose identifier is not in the set is dropped and turned into one
  build-request, and at most one \<^verbatim>\<open>agent.resources-response\<close> is re-emitted because of
  it: exactly one when every promise of its iteration settles and the iteration completes
  (the history is cached, or no blocking provider throws). An identifier enters the set
  when \<^verbatim>\<open>re-emit-build-response\<close> handles a build-response that carries it, by no other
  handler, and never leaves it. So when the iteration of the first arrival has emitted
  its build-response, and the second arrival of the identifier finds a context that the
  handlers have reached from the one in which that build-response was handled, the second
  arrival is ignored and the two arrivals give one re-emission, that of the first.
\<close>

theorem processed_request_is_ignored:
  fixes d d' resp resp1 :: "('m, 'r) resources_data" and changes :: "('m, 'r) change list"
    and ev ev0 :: "('m, 'r) event" and ch :: "('m, 'r) change"
  shows
    "(dep \<noteq> ''core'' \<or> (\<forall>x. ev0 \<noteq> AgentResourcesResponse x) \<longrightarrow>
        intercept_core_resources_response c dep ev0 = \<lparr>dropped = None, emitted_i = []\<rparr>)
   \<and> (requestId d \<in> processedRequestsIds c \<longrightarrow>
        intercept_core_resources_response c ''core'' (AgentResourcesResponse d)
          = \<lparr>dropped = None, emitted_i = []\<rparr>
      \<and> arrival_emissions sha items now order now_nb order_nb d c cb ce = [])
   \<and> (requestId d \<notin> processedRequestsIds c \<longrightarrow>
        intercept_core_resources_response c ''core'' (AgentResourcesResponse d)
          = \<lparr>dropped = Some ''Will be re-emitted by memories later.'',
             emitted_i = [BuildRequest d]\<rparr>
      \<and> (arrival_emissions sha items now order now_nb order_nb d c cb ce = []
         \<or> (\<exists>m. arrival_emissions sha items now order now_nb order_nb d c cb ce
                  = [AgentResourcesResponse (d\<lparr>messages := m\<rparr>)])))
   \<and> (requestId d \<notin> processedRequestsIds c
        \<and> (\<forall>i < length items. i \<in> set order)
        \<and> (computedMemoriesCache cb (sha (messages d)) \<noteq> None
             \<or> (\<forall>i < length items. \<not> throws items (messages d) i)) \<longrightarrow>
        (\<exists>m. arrival_emissions sha items now order now_nb order_nb d c cb ce
                = [AgentResourcesResponse (d\<lparr>messages := m\<rparr>)]))
   \<and> re_emit_build_response (BuildResponse resp) ce
        = (ce\<lparr>processedRequestsIds := insert (requestId resp) (processedRequestsIds ce)\<rparr>,
           [AgentResourcesResponse resp])
   \<and> ((\<forall>r. ev \<noteq> BuildResponse r) \<longrightarrow> re_emit_build_response ev ce = (ce, []))
   \<and> processedRequestsIds (apply_change sha items ch c)
        = processedRequestsIds c \<union> (case ch of ReEmitted ev' \<Rightarrow> marked ev' | _ \<Rightarrow> {})
   \<and> processedRequestsIds c \<subseteq> processedRequestsIds (fold (apply_change sha items) changes c)
   \<and> (requestId d \<notin> processedRequestsIds c
        \<and> (\<forall>i < length items. i \<in> set order)
        \<and> BuildResponse resp1
             \<in> set (emitted (snd (build_memories sha items now order (BuildRequest d) cb)))
        \<and> requestId d' = requestId d \<longrightarrow>
        arrival_emissions sha items now order now_nb order_nb d c cb ce
          = [AgentResourcesResponse resp1]
      \<and> arrival_emissions sha items now2 order2 now_nb2 order_nb2 d'
          (fold (apply_change sha items) changes
             (fst (re_emit_build_response (BuildResponse resp1) ce))) cb2 ce2 = []
      \<and> length (arrival_emissions sha items now order now_nb order_nb d c cb ce
                 @ arrival_emissions sha items now2 order2 now_nb2 order_nb2 d'
                     (fold (apply_change sha items) changes
                        (fst (re_emit_build_response (BuildResponse resp1) ce))) cb2 ce2) = 1)"
proof -
  have ignored: "intercept_core_resources_response c ''core'' (AgentResourcesResponse d)
          = \<lparr>dropped = None, emitted_i = []\<rparr>
      \<and> arrival_emissions sha items now order now_nb order_nb d c cb ce = []"
    if "requestId d \<in> processedRequestsIds c"
    using intercept_processed [OF that] arrival_emissions_processed [OF that] by simp
  have most: "intercept_core_resources_response c ''core'' (AgentResourcesResponse d)
          = \<lparr>dropped = Some ''Will be re-emitted by memories later.'',
             emitted_i = [BuildRequest d]\<rparr>
      \<and> (arrival_emissions sha items now order now_nb order_nb d c cb ce = []
         \<or> (\<exists>m. arrival_emissions sha items now order now_nb order_nb d c cb ce
                  = [AgentResourcesResponse (d\<lparr>messages := m\<rparr>)]))"
    if fresh: "requestId d \<notin> processedRequestsIds c"
    using intercept_fresh [OF fresh] build_memories_at_most_one [of sha items now order d cb]
    unfolding arrival_emissions_fresh [OF fresh] by simp
  have one: "\<exists>m. arrival_emissions sha items now order now_nb order_nb d c cb ce
                = [AgentResourcesResponse (d\<lparr>messages := m\<rparr>)]"
    if fresh: "requestId d \<notin> processedRequestsIds c"
      and completes: "computedMemoriesCache cb (sha (messages d)) \<noteq> None
             \<or> (\<forall>i < length items. \<not> throws items (messages d) i)"
  proof -
    from build_memories_exactly_one [where sha = sha and d = d and c = cb and items = items, OF completes, of now order]
    obtain m where em: "emitted (snd (build_memories sha items now order (BuildRequest d) cb))
               = concat (map (settled_event items (messages d) now)
                   (if computedMemoriesCache cb (sha (messages d)) = None then order else []))
                 @ [BuildResponse (d\<lparr>messages := m\<rparr>)]"
      by blast
    have "arrival_emissions sha items now order now_nb order_nb d c cb ce
                = [AgentResourcesResponse (d\<lparr>messages := m\<rparr>)]"
      unfolding arrival_emissions_fresh [OF fresh] em
      by (simp add: forwarded_settled) (simp add: forwarded_def)
    then show ?thesis by blast
  qed
  have effect: "re_emit_build_response (BuildResponse r) ce
        = (ce\<lparr>processedRequestsIds := insert (requestId r) (processedRequestsIds ce)\<rparr>,
           [AgentResourcesResponse r])" for r :: "('m, 'r) resources_data"
    by (simp add: re_emit_build_response_def)
  have other: "re_emit_build_response ev ce = (ce, [])" if "\<forall>r. ev \<noteq> BuildResponse r"
    using that by (cases ev) (simp_all add: re_emit_build_response_def)
  have twice: "arrival_emissions sha items now order now_nb order_nb d c cb ce
          = [AgentResourcesResponse resp1]
      \<and> arrival_emissions sha items now2 order2 now_nb2 order_nb2 d'
          (fold (apply_change sha items) changes
             (fst (re_emit_build_response (BuildResponse resp1) ce))) cb2 ce2 = []
      \<and> length (arrival_emissions sha items now order now_nb order_nb d c cb ce
                 @ arrival_emissions sha items now2 order2 now_nb2 order_nb2 d'
                     (fold (apply_change sha items) changes
                        (fst (re_emit_build_response (BuildResponse resp1) ce))) cb2 ce2) = 1"
    if fresh: "requestId d \<notin> processedRequestsIds c"
      and resp1: "BuildResponse resp1
             \<in> set (emitted (snd (build_memories sha items now order (BuildRequest d) cb)))"
      and same: "requestId d' = requestId d"
  proof -
    have first: "arrival_emissions sha items now order now_nb order_nb d c cb ce
                = [AgentResourcesResponse resp1]"
      unfolding arrival_emissions_fresh [OF fresh]
      using resp1 by (rule build_memories_response_forwarded)
    have "requestId resp1 = requestId d"
      using resp1 by (rule build_memories_response_id)
    then have "requestId d'
        \<in> processedRequestsIds (fst (re_emit_build_response (BuildResponse resp1) ce))"
      using same by (simp add: effect [of resp1])
    with fold_apply_change_processed [of "fst (re_emit_build_response (BuildResponse resp1) ce)"
           sha items changes]
    have "requestId d' \<in> processedRequestsIds (fold (apply_change sha items) changes
             (fst (re_emit_build_response (BuildResponse resp1) ce)))"
      by blast
    from arrival_emissions_processed [OF this]
    have second: "arrival_emissions sha items now2 order2 now_nb2 order_nb2 d'
          (fold (apply_change sha items) changes
             (fst (re_emit_build_response (BuildResponse resp1) ce))) cb2 ce2 = []" .
    from first second show ?thesis by simp
  qed
  have elsewhere: "intercept_core_resources_response c dep ev0
        = \<lparr>dropped = None, emitted_i = []\<rparr>"
    if "dep \<noteq> ''core'' \<or> (\<forall>x. ev0 \<noteq> AgentResourcesResponse x)"
    using that by (cases ev0) (auto simp: intercept_core_resources_response_def)
  from elsewhere ignored most one effect [of resp] other twice
       apply_change_processed [of sha items ch c]
       fold_apply_change_processed [of c sha items changes]
  show ?thesis by blast
qed


subsection \<open>A duplicate that arrives early\<close>

lemma first_response_cache:
  "computedMemoriesCache context_after_first_response (example_sha (messages request_U1))
     = Some \<lparr>hash = ''U1;'', memories = [''F1'']\<rparr>"
  by (simp add: context_after_first_response_def re_emit_build_response_def
        store_memory_result_cache context_after_round_one_def initial_context_def
        request_U1_def example_sha_def)

lemma first_response_processed:
  "requestId request_U1 \<in> processedRequestsIds context_after_first_response"
  by (simp add: context_after_first_response_def re_emit_build_response_def request_U1_def)

lemma initial_fresh: "requestId request_U1 \<notin> processedRequestsIds (initial_context :: string ctx)"
  by (simp add: initial_context_def)

lemma first_arrival_emissions:
  "arrival_emissions example_sha registry_facts_recent 7 [1, 0] 8 [1, 0] request_U1
     initial_context initial_context context_after_round_one
     = [AgentResourcesResponse (request_U1\<lparr>messages := [''F1'']\<rparr>)]"
  unfolding arrival_emissions_fresh [OF initial_fresh] facts_recent_round_one
  by (simp add: forwarded_def)

lemma duplicate_arrival_emissions:
  "arrival_emissions example_sha registry_facts_recent 9 [1, 0] 10 [1, 0] request_U1
     initial_context context_after_first_response context_after_first_response
     = [AgentResourcesResponse (request_U1\<lparr>messages := [''F1'']\<rparr>)]"
  unfolding arrival_emissions_fresh [OF initial_fresh]
    build_memories_hit [where sha = example_sha and d = request_U1, OF first_response_cache]
  by (simp add: forwarded_def)

text \<open>
  The identifier is marked only when the build-response is handled. In the end-to-end
  example, a second arrival of request \<open>r1\<close> that comes before the build-response of
  the first one has been handled finds the identifier unmarked, is dropped and rebuilt
  like the first, and its iteration, which runs after the first one, answers from the
  cache: two \<^verbatim>\<open>agent.resources-response\<close> events are re-emitted for the one identifier.
\<close>

theorem duplicate_before_response_is_rebuilt:
  "requestId request_U1 \<notin> processedRequestsIds (initial_context :: string ctx)
   \<and> arrival_emissions example_sha registry_facts_recent 7 [1, 0] 8 [1, 0] request_U1
         initial_context initial_context context_after_round_one
       @ arrival_emissions example_sha registry_facts_recent 9 [1, 0] 10 [1, 0] request_U1
           initial_context context_after_first_response context_after_first_response
       = [AgentResourcesResponse (request_U1\<lparr>messages := [''F1'']\<rparr>),
          AgentResourcesResponse (request_U1\<lparr>messages := [''F1'']\<rparr>)]"
  unfolding first_arrival_emissions duplicate_arrival_emissions
  by (simp add: initial_fresh)

theorem processed_request_is_ignored_witness:
  "intercept_core_resources_response (initial_context :: string ctx) ''agent''
        (AgentResourcesResponse request_U1) = \<lparr>dropped = None, emitted_i = []\<rparr>
   \<and> requestId request_U1 \<in> processedRequestsIds context_after_first_response
   \<and> intercept_core_resources_response context_after_first_response ''core''
        (AgentResourcesResponse request_U1) = \<lparr>dropped = None, emitted_i = []\<rparr>
   \<and> arrival_emissions example_sha registry_facts_recent 9 [1, 0] 10 [1, 0] request_U1
        context_after_first_response context_after_first_response context_after_first_response = []
   \<and> requestId request_U1 \<notin> processedRequestsIds (initial_context :: string ctx)
   \<and> intercept_core_resources_response (initial_context :: string ctx) ''core''
        (AgentResourcesResponse request_U1)
       = \<lparr>dropped = Some ''Will be re-emitted by memories later.'',
          emitted_i = [BuildRequest request_U1]\<rparr>
   \<and> {..<length registry_facts_recent} \<subseteq> set [1, 0::nat]
   \<and> {j. j < length registry_facts_recent
            \<and> throws registry_facts_recent (messages request_U1) j} = {}
   \<and> (\<exists>m. arrival_emissions example_sha registry_facts_recent 7 [1, 0] 8 [1, 0] request_U1
              initial_context initial_context context_after_round_one
            = [AgentResourcesResponse (request_U1\<lparr>messages := m\<rparr>)])
   \<and> arrival_emissions example_sha registry_facts_recent 7 [1, 0] 8 [1, 0] request_U1
        initial_context initial_context context_after_round_one
       = [AgentResourcesResponse (request_U1\<lparr>messages := [''F1'']\<rparr>)]
   \<and> BuildResponse (request_U1\<lparr>messages := [''F1'']\<rparr>)
       \<in> set (emitted (snd (build_memories example_sha registry_facts_recent 7 [1, 0]
                (BuildRequest request_U1) initial_context)))
   \<and> re_emit_build_response (MemoryResult ''facts'' [''F1''] 7 :: (string, unit) event)
        context_after_round_one = (context_after_round_one, [])
   \<and> length (arrival_emissions example_sha registry_facts_recent 7 [1, 0] 8 [1, 0] request_U1
                initial_context initial_context context_after_round_one
              @ arrival_emissions example_sha registry_facts_recent 9 [1, 0] 10 [1, 0] request_U1
                  (fold (apply_change example_sha registry_facts_recent)
                     [Stored (MemoryResult ''recent'' [''R1''] 8 :: (string, unit) event)]
                     (fst (re_emit_build_response
                            (BuildResponse (request_U1\<lparr>messages := [''F1'']\<rparr>))
                            context_after_round_one)))
                  context_after_first_response context_after_first_response) = 1"
proof -
  have settle: "\<forall>i < length registry_facts_recent. i \<in> set [1, 0::nat]"
    by (rule facts_recent_settle)
  have ok: "computedMemoriesCache (initial_context :: string ctx) (example_sha (messages request_U1)) \<noteq> None
      \<or> (\<forall>i < length registry_facts_recent.
            \<not> throws registry_facts_recent (messages request_U1) i)"
    using facts_recent_no_throw by blast
  have resp: "BuildResponse (request_U1\<lparr>messages := [''F1'']\<rparr>)
       \<in> set (emitted (snd (build_memories example_sha registry_facts_recent 7 [1, 0]
                (BuildRequest request_U1) initial_context)))"
    unfolding facts_recent_round_one by simp
  have not_response: "\<forall>r. (MemoryResult ''facts'' [''F1''] 7 :: (string, unit) event) \<noteq> BuildResponse r"
    by simp
  note processed = processed_request_is_ignored
      [where d = request_U1 and c = context_after_first_response
         and sha = example_sha and items = registry_facts_recent and now = 9 and order = "[1, 0]"
         and now_nb = 10 and order_nb = "[1, 0]"
         and cb = context_after_first_response and ce = context_after_first_response]
  note fresh = processed_request_is_ignored
      [where d = request_U1 and d' = request_U1 and c = initial_context
         and sha = example_sha and items = registry_facts_recent and now = 7 and order = "[1, 0]"
         and now_nb = 8 and order_nb = "[1, 0]"
         and cb = initial_context and ce = context_after_round_one
         and ev = "MemoryResult ''facts'' [''F1''] 7"
         and ?resp1.0 = "request_U1\<lparr>messages := [''F1'']\<rparr>"
         and changes = "[Stored (MemoryResult ''recent'' [''R1''] 8 :: (string, unit) event)]"
         and ?now2.0 = 9 and ?order2.0 = "[1, 0]" and ?now_nb2.0 = 10 and ?order_nb2.0 = "[1, 0]"
         and ?cb2.0 = context_after_first_response and ?ce2.0 = context_after_first_response]
  have a: "intercept_core_resources_response context_after_first_response ''core''
        (AgentResourcesResponse request_U1) = \<lparr>dropped = None, emitted_i = []\<rparr>
   \<and> arrival_emissions example_sha registry_facts_recent 9 [1, 0] 10 [1, 0] request_U1
        context_after_first_response context_after_first_response context_after_first_response = []"
    by (rule processed [THEN conjunct2, THEN conjunct1, THEN mp]) (rule first_response_processed)
  have b: "intercept_core_resources_response (initial_context :: string ctx) ''core''
        (AgentResourcesResponse request_U1)
       = \<lparr>dropped = Some ''Will be re-emitted by memories later.'',
          emitted_i = [BuildRequest request_U1]\<rparr>"
    by (rule fresh [THEN conjunct2, THEN conjunct2, THEN conjunct1, THEN mp, THEN conjunct1])
       (rule initial_fresh)
  have c: "re_emit_build_response (MemoryResult ''facts'' [''F1''] 7 :: (string, unit) event)
        context_after_round_one = (context_after_round_one, [])"
    by (rule fresh [THEN conjunct2, THEN conjunct2, THEN conjunct2, THEN conjunct2,
                    THEN conjunct2, THEN conjunct1, THEN mp])
       (rule not_response)
  have hyp: "requestId request_U1 \<notin> processedRequestsIds (initial_context :: string ctx)
      \<and> (\<forall>i < length registry_facts_recent. i \<in> set [1, 0::nat])
      \<and> BuildResponse (request_U1\<lparr>messages := [''F1'']\<rparr>)
          \<in> set (emitted (snd (build_memories example_sha registry_facts_recent 7 [1, 0]
                (BuildRequest request_U1) initial_context)))
      \<and> requestId request_U1 = requestId request_U1"
    by (intro conjI initial_fresh settle resp refl)
  note last = fresh [THEN conjunct2, THEN conjunct2, THEN conjunct2, THEN conjunct2,
                    THEN conjunct2, THEN conjunct2, THEN conjunct2, THEN conjunct2,
                    THEN mp, OF hyp]
  have d: "length (arrival_emissions example_sha registry_facts_recent 7 [1, 0] 8 [1, 0] request_U1
                initial_context initial_context context_after_round_one
              @ arrival_emissions example_sha registry_facts_recent 9 [1, 0] 10 [1, 0] request_U1
                  (fold (apply_change example_sha registry_facts_recent)
                     [Stored (MemoryResult ''recent'' [''R1''] 8 :: (string, unit) event)]
                     (fst (re_emit_build_response
                            (BuildResponse (request_U1\<lparr>messages := [''F1'']\<rparr>))
                            context_after_round_one)))
                  context_after_first_response context_after_first_response) = 1"
    by (rule last [THEN conjunct2, THEN conjunct2])
  have e: "{..<length registry_facts_recent} \<subseteq> set [1, 0::nat]"
    using settle by blast
  have f: "{j. j < length registry_facts_recent
            \<and> throws registry_facts_recent (messages request_U1) j} = {}"
    using facts_recent_no_throw by blast
  have h: "\<exists>m. arrival_emissions example_sha registry_facts_recent 7 [1, 0] 8 [1, 0] request_U1
              initial_context initial_context context_after_round_one
            = [AgentResourcesResponse (request_U1\<lparr>messages := m\<rparr>)]"
    by (rule fresh [THEN conjunct2, THEN conjunct2, THEN conjunct2, THEN conjunct1, THEN mp])
       (intro conjI initial_fresh settle ok)
  have g: "intercept_core_resources_response (initial_context :: string ctx) ''agent''
        (AgentResourcesResponse request_U1) = \<lparr>dropped = None, emitted_i = []\<rparr>"
    by (rule fresh [where dep = "''agent''" and ?ev0.0 = "AgentResourcesResponse request_U1",
                    THEN conjunct1, THEN mp]) simp
  show ?thesis
    by (intro conjI g first_response_processed a [THEN conjunct1] a [THEN conjunct2]
          initial_fresh b e f h last [THEN conjunct1] resp c d)
qed

section \<open>The fingerprint\<close>

text \<open>
  The hash \<^verbatim>\<open>stableObjectSHA256\<close> is a parameter of the model, and every function of
  higher-order logic gives equal results on equal arguments. A SHA-256 digest is one of
  finitely many values. Whatever the function is, if it has finitely many values and
  there are two different messages, then two different orderings of the same messages
  have the same digest: telling all orderings apart is beyond any digest, and can only
  be meant as the practical impossibility of finding such a pair.
\<close>

lemma mset_two_orders:
  "mset (two_orders a b xs) = replicate_mset (length xs) a + replicate_mset (length xs) b"
  by (induction xs) auto

lemma two_orders_inj:
  assumes "a \<noteq> b" "length xs = length ys" "two_orders a b xs = two_orders a b ys"
  shows "xs = ys"
  using assms(2,3,1)
  by (induction xs ys rule: list_induct2) (auto split: if_splits)

lemma digest_collision_exists:
  fixes fp :: "'m list \<Rightarrow> 'd" and a b :: 'm
  assumes fin: "finite (range fp)" and ab: "a \<noteq> b"
  shows "\<exists>H1 H2. H1 \<noteq> H2 \<and> mset H1 = mset H2 \<and> fp H1 = fp H2"
proof -
  define n where "n = card (range fp)"
  define A where "A = {xs :: bool list. length xs = n}"
  have cardA: "card A = 2 ^ n"
    using card_lists_length_eq [of "UNIV :: bool set" n] by (simp add: A_def)
  have "card ((\<lambda>xs. fp (two_orders a b xs)) ` A) \<le> card (range fp)"
    by (rule card_mono [OF fin]) blast
  also have "\<dots> < 2 ^ n"
    unfolding n_def by (rule less_exp)
  finally have "card ((\<lambda>xs. fp (two_orders a b xs)) ` A) < card A"
    by (simp add: cardA)
  then have "\<not> inj_on (\<lambda>xs. fp (two_orders a b xs)) A"
    by (rule pigeonhole)
  then obtain xs ys where xy: "xs \<in> A" "ys \<in> A" "xs \<noteq> ys"
    and eq: "fp (two_orders a b xs) = fp (two_orders a b ys)"
    unfolding inj_on_def by blast
  from xy have len: "length xs = length ys"
    by (simp add: A_def)
  with xy(3) have "two_orders a b xs \<noteq> two_orders a b ys"
    using two_orders_inj [OF ab] by blast
  moreover have "mset (two_orders a b xs) = mset (two_orders a b ys)"
    by (simp add: mset_two_orders len)
  ultimately show ?thesis using eq by blast
qed

end
